theory Spec2Isabelle
  imports Main
begin

section \<open>Memory: cells obtained with new and released with delete\<close>

text \<open>
  The examples own raw heap memory (\<^verbatim>\<open>new int(42)\<close>, \<^verbatim>\<open>new char[m_size]\<close>) and release it
  with \<^verbatim>\<open>delete\<close> / \<^verbatim>\<open>delete[]\<close>.  A heap is the list of all cells ever allocated, indexed by
  their address: \<open>Some v\<close> is a live cell holding \<open>v\<close>, \<open>None\<close> a cell that has been freed.
  An allocation appends a cell, so a new address differs from every address handed out before
  (addresses name cells, they are never reused).  A pointer is \<open>None\<close> for \<^verbatim>\<open>nullptr\<close> and
  \<open>Some a\<close> for the address \<open>a\<close>.

  What C++ leaves undefined is an error value of the model: reading through a null pointer,
  reading or writing a freed cell, freeing a cell a second time, using an object outside its
  lifetime.
\<close>

datatype error = NullDeref | UseAfterFree | DoubleFree | InvalidPointer | DeadObject | OutOfBounds

type_synonym 'c heap = "'c option list"

type_synonym ptr = "nat option"

definition op_new :: "'c heap \<Rightarrow> 'c \<Rightarrow> nat \<times> 'c heap" where
  "op_new h v = (length h, h @ [Some v])"

definition deref :: "'c heap \<Rightarrow> ptr \<Rightarrow> error + 'c" where
  "deref h p =
     (case p of
        None \<Rightarrow> Inl NullDeref
      | Some a \<Rightarrow>
          (if a < length h
           then (case h ! a of None \<Rightarrow> Inl UseAfterFree | Some v \<Rightarrow> Inr v)
           else Inl InvalidPointer))"

definition assign_through :: "'c heap \<Rightarrow> ptr \<Rightarrow> 'c \<Rightarrow> error + 'c heap" where
  "assign_through h p v =
     (case p of
        None \<Rightarrow> Inl NullDeref
      | Some a \<Rightarrow>
          (if a < length h
           then (case h ! a of None \<Rightarrow> Inl UseAfterFree | Some _ \<Rightarrow> Inr (h[a := Some v]))
           else Inl InvalidPointer))"

text \<open>\<^verbatim>\<open>delete p\<close>: nothing happens for a null pointer; a live cell is freed; a cell that was
  freed before is a double free.\<close>

definition op_delete :: "'c heap \<Rightarrow> ptr \<Rightarrow> error + 'c heap" where
  "op_delete h p =
     (case p of
        None \<Rightarrow> Inr h
      | Some a \<Rightarrow>
          (if a < length h
           then (case h ! a of None \<Rightarrow> Inl DoubleFree | Some _ \<Rightarrow> Inr (h[a := None]))
           else Inl InvalidPointer))"

text \<open>Releasing whatever a pointer holds: nothing for the null pointer, its cell otherwise.\<close>

definition released :: "'c heap \<Rightarrow> ptr \<Rightarrow> 'c heap" where
  "released h p = (case p of None \<Rightarrow> h | Some a \<Rightarrow> h[a := None])"

definition newline :: string where
  "newline = [CHR 0x0A]"

section \<open>Tracer (01_rule_of_five.h)\<close>

text \<open>
  A \<open>Tracer\<close> object has a name and a pointer to an owned \<^verbatim>\<open>int\<close>.  Objects live at storage
  locations: \<open>Local i\<close> is the i-th automatic variable (or temporary) of the running exercise,
  \<open>Slot b i\<close> is element \<open>i\<close> of buffer number \<open>b\<close> of the exercise's vector.  The location of an
  object is its address: \<^verbatim>\<open>this == &other\<close> compares locations.
\<close>

datatype loc = Local nat | Slot nat nat

record Tracer =
  name :: string
  resource :: ptr

text \<open>The history is an auxiliary variable: it records, with the location, every object whose
  lifetime begins (any constructor) or ends (the destructor).  The program never reads it.\<close>

datatype lifetime = Began loc | Ended loc

record tstate =
  heap :: "int heap"
  objs :: "loc \<Rightarrow> Tracer option"
  out :: string
  history :: "lifetime list"

definition init :: tstate where
  "init = \<lparr>heap = [], objs = (\<lambda>_. None), out = [], history = []\<rparr>"

text \<open>\<^verbatim>\<open>Tracer(std::string n) : name(std::move(n)), resource(new int(42))\<close>\<close>

definition Tracer_ctor :: "tstate \<Rightarrow> loc \<Rightarrow> string \<Rightarrow> error + tstate" where
  "Tracer_ctor s this n =
     (let (a, h) = op_new (heap s) 42;
          t = \<lparr>name = n, resource = Some a\<rparr>
      in Inr (s\<lparr>heap := h,
                objs := (objs s)(this \<mapsto> t),
                out := out s @ ''  '' @ name t @ '': Constructor'' @ newline,
                history := history s @ [Began this]\<rparr>))"

text \<open>\<^verbatim>\<open>~Tracer()\<close>: the line is printed first, then \<^verbatim>\<open>delete resource\<close>.\<close>

definition Tracer_dtor :: "tstate \<Rightarrow> loc \<Rightarrow> error + tstate" where
  "Tracer_dtor s this =
     (case objs s this of
        None \<Rightarrow> Inl DeadObject
      | Some t \<Rightarrow>
          (case op_delete (heap s) (resource t) of
             Inl e \<Rightarrow> Inl e
           | Inr h \<Rightarrow>
               Inr (s\<lparr>heap := h,
                      objs := (objs s)(this := None),
                      out := out s @ ''  '' @ name t @ '': Destructor'' @ newline,
                      history := history s @ [Ended this]\<rparr>)))"

text \<open>\<^verbatim>\<open>Tracer(const Tracer& other) : name(other.name), resource(new int(*other.resource))\<close>:
  the member initialisers read through \<^verbatim>\<open>other.resource\<close> before the body prints.\<close>

definition Tracer_copy_ctor :: "tstate \<Rightarrow> loc \<Rightarrow> loc \<Rightarrow> error + tstate" where
  "Tracer_copy_ctor s this other =
     (case objs s other of
        None \<Rightarrow> Inl DeadObject
      | Some u \<Rightarrow>
          (case deref (heap s) (resource u) of
             Inl e \<Rightarrow> Inl e
           | Inr v \<Rightarrow>
               (let (a, h) = op_new (heap s) v;
                    t = \<lparr>name = name u, resource = Some a\<rparr>
                in Inr (s\<lparr>heap := h,
                          objs := (objs s)(this \<mapsto> t),
                          out := out s @ ''  '' @ name t @ '': COPY Constructor from ''
                                   @ name u @ newline,
                          history := history s @ [Began this]\<rparr>))))"

text \<open>\<^verbatim>\<open>Tracer& operator=(const Tracer& other)\<close>: guard, print, allocate the duplicate,
  delete the old cell, take the new cell and the name.\<close>

definition Tracer_copy_assign :: "tstate \<Rightarrow> loc \<Rightarrow> loc \<Rightarrow> error + tstate" where
  "Tracer_copy_assign s this other =
     (if this = other then Inr s
      else
        (case objs s this of
           None \<Rightarrow> Inl DeadObject
         | Some t \<Rightarrow>
             (case objs s other of
                None \<Rightarrow> Inl DeadObject
              | Some u \<Rightarrow>
                  (case deref (heap s) (resource u) of
                     Inl e \<Rightarrow> Inl e
                   | Inr v \<Rightarrow>
                       (let (new_res, h) = op_new (heap s) v
                        in (case op_delete h (resource t) of
                              Inl e \<Rightarrow> Inl e
                            | Inr h' \<Rightarrow>
                                Inr (s\<lparr>heap := h',
                                       objs := (objs s)(this \<mapsto>
                                                 \<lparr>name = name u, resource = Some new_res\<rparr>),
                                       out := out s @ ''  '' @ name t @ '': COPY Assignment from ''
                                                @ name u @ newline\<rparr>)))))))"

text \<open>
  \<^verbatim>\<open>Tracer(Tracer&& other) noexcept\<close>.  \<^verbatim>\<open>this->name = std::move(other.name)\<close> leaves the
  source string empty (what the standard libraries do for a moved-from \<^verbatim>\<open>std::string\<close>, and
  what the later \<^verbatim>\<open>+=\<close> relies on); then the pointer is taken, the line printed, the source's
  pointer nulled and its name extended with the original name and the tag.
\<close>

definition Tracer_move_ctor :: "tstate \<Rightarrow> loc \<Rightarrow> loc \<Rightarrow> error + tstate" where
  "Tracer_move_ctor s this other =
     (case objs s other of
        None \<Rightarrow> Inl DeadObject
      | Some u \<Rightarrow>
          (let original_other_name = name u;
               t = \<lparr>name = name u, resource = resource u\<rparr>;
               o1 = u\<lparr>name := []\<rparr>;
               o2 = o1\<lparr>resource := None\<rparr>;
               o3 = o2\<lparr>name := name o2 @ (original_other_name @ '' [moved]'')\<rparr>
           in Inr (s\<lparr>objs := (objs s)(this \<mapsto> t, other \<mapsto> o3),
                     out := out s @ ''  '' @ name t @ '': MOVE Constructor from ''
                              @ original_other_name @ newline,
                     history := history s @ [Began this]\<rparr>)))"

text \<open>
  \<^verbatim>\<open>Tracer& operator=(Tracer&& other) noexcept\<close>: guard, print, delete the own cell, take the
  pointer, copy the name (\<^verbatim>\<open>name = other.name\<close>, the source keeps its name), null the
  source's pointer and append the original name and the tag to the source's name.
\<close>

definition Tracer_move_assign :: "tstate \<Rightarrow> loc \<Rightarrow> loc \<Rightarrow> error + tstate" where
  "Tracer_move_assign s this other =
     (if this = other then Inr s
      else
        (case objs s this of
           None \<Rightarrow> Inl DeadObject
         | Some t \<Rightarrow>
             (case objs s other of
                None \<Rightarrow> Inl DeadObject
              | Some u \<Rightarrow>
                  (let original_other_name = name u
                   in (case op_delete (heap s) (resource t) of
                         Inl e \<Rightarrow> Inl e
                       | Inr h \<Rightarrow>
                           (let t' = \<lparr>name = name u, resource = resource u\<rparr>;
                                o1 = u\<lparr>resource := None\<rparr>;
                                o2 = o1\<lparr>name := name o1 @ (original_other_name @ '' [moved]'')\<rparr>
                            in Inr (s\<lparr>heap := h,
                                      objs := (objs s)(this \<mapsto> t', other \<mapsto> o2),
                                      out := out s @ ''  '' @ name t @ '': MOVE Assignment from ''
                                               @ name u @ newline\<rparr>)))))))"

subsection \<open>The ownership invariant\<close>

text \<open>Every non-null \<open>resource\<close> of a live object points to a live cell, and no two live
  objects point to the same cell.\<close>

definition owned :: "int heap \<Rightarrow> (loc \<Rightarrow> Tracer option) \<Rightarrow> bool" where
  "owned h ob \<longleftrightarrow>
     (\<forall>l t a. ob l = Some t \<longrightarrow> resource t = Some a \<longrightarrow> a < length h \<and> h ! a \<noteq> None) \<and>
     (\<forall>l1 l2 t1 t2 a. ob l1 = Some t1 \<longrightarrow> ob l2 = Some t2 \<longrightarrow>
        resource t1 = Some a \<longrightarrow> resource t2 = Some a \<longrightarrow> l1 = l2)"

definition single_owner :: "tstate \<Rightarrow> bool" where
  "single_owner s \<longleftrightarrow> owned (heap s) (objs s)"

subsection \<open>Sequences of lifecycle operations\<close>

datatype op =
    Construct loc string
  | Destruct loc
  | CopyConstruct loc loc
  | CopyAssign loc loc
  | MoveConstruct loc loc
  | MoveAssign loc loc

fun step :: "tstate \<Rightarrow> op \<Rightarrow> error + tstate" where
  "step s (Construct this n) = Tracer_ctor s this n"
| "step s (Destruct this) = Tracer_dtor s this"
| "step s (CopyConstruct this other) = Tracer_copy_ctor s this other"
| "step s (CopyAssign this other) = Tracer_copy_assign s this other"
| "step s (MoveConstruct this other) = Tracer_move_ctor s this other"
| "step s (MoveAssign this other) = Tracer_move_assign s this other"

fun run :: "tstate \<Rightarrow> op list \<Rightarrow> error + tstate" where
  "run s [] = Inr s"
| "run s (x # xs) = (case step s x of Inl e \<Rightarrow> Inl e | Inr s' \<Rightarrow> run s' xs)"

text \<open>A result is harmless when it is a state that satisfies the ownership invariant, or the
  operation was stopped for reading through a null pointer or for addressing an object outside
  its lifetime; no cell was accessed after its release or released twice.\<close>

definition harmless :: "error + tstate \<Rightarrow> bool" where
  "harmless r =
     (case r of Inl e \<Rightarrow> e = NullDeref \<or> e = DeadObject | Inr s' \<Rightarrow> single_owner s')"

text \<open>Writing through a pointer several times, one value after the other.\<close>

fun assign_all :: "'c heap \<Rightarrow> ptr \<Rightarrow> 'c list \<Rightarrow> error + 'c heap" where
  "assign_all h p [] = Inr h"
| "assign_all h p (w # ws) =
     (case assign_through h p w of Inl e \<Rightarrow> Inl e | Inr h' \<Rightarrow> assign_all h' p ws)"

section \<open>The exercises of Program_01_CopyMove\<close>

definition and_then :: "error + 'a \<Rightarrow> ('a \<Rightarrow> error + 'b) \<Rightarrow> error + 'b" where
  "and_then r f = (case r of Inl e \<Rightarrow> Inl e | Inr x \<Rightarrow> f x)"

definition cout :: "tstate \<Rightarrow> string \<Rightarrow> tstate" where
  "cout s txt = s\<lparr>out := out s @ txt\<rparr>"

text \<open>The rocket of the exercise headers, U+1F680, in UTF-8.\<close>

definition rocket :: string where
  "rocket = [CHR 0xF0, CHR 0x9F, CHR 0x9A, CHR 0x80]"

definition get_name :: "tstate \<Rightarrow> loc \<Rightarrow> error + string" where
  "get_name s l = (case objs s l of None \<Rightarrow> Inl DeadObject | Some t \<Rightarrow> Inr (name t))"

fun destroy_all :: "tstate \<Rightarrow> loc list \<Rightarrow> error + tstate" where
  "destroy_all s [] = Inr s"
| "destroy_all s (l # ls) = and_then (Tracer_dtor s l) (\<lambda>s'. destroy_all s' ls)"

text \<open>Leaving a block destroys its automatic variables, the last declared first.  The
  variables are listed in the order of their declarations.\<close>

definition scope_exit :: "tstate \<Rightarrow> loc list \<Rightarrow> error + tstate" where
  "scope_exit s locals = destroy_all s (rev locals)"

text \<open>\<^verbatim>\<open>Tracer t1("t1"); Tracer t2 = t1;\<close>\<close>

definition exercise_1_1 :: "tstate \<Rightarrow> error + tstate" where
  "exercise_1_1 s0 =
     and_then (Tracer_ctor (cout s0 (newline @ rocket @ '' Exercise 1.1'' @ newline))
                 (Local 0) ''t1'') (\<lambda>s.
     and_then (Tracer_copy_ctor s (Local 1) (Local 0)) (\<lambda>s.
     scope_exit (cout s (''...end of scope'' @ newline)) [Local 0, Local 1]))"

text \<open>\<^verbatim>\<open>Tracer t1("t1"); Tracer t2("t2"); t2 = t1;\<close>\<close>

definition exercise_1_2 :: "tstate \<Rightarrow> error + tstate" where
  "exercise_1_2 s0 =
     and_then (Tracer_ctor (cout s0 (newline @ rocket @ '' Exercise 1.2'' @ newline))
                 (Local 0) ''t1'') (\<lambda>s.
     and_then (Tracer_ctor s (Local 1) ''t2'') (\<lambda>s.
     and_then (Tracer_copy_assign s (Local 1) (Local 0)) (\<lambda>s.
     scope_exit (cout s (''...end of scope'' @ newline)) [Local 0, Local 1])))"

text \<open>\<^verbatim>\<open>Tracer t1("t1"); Tracer t4 = std::move(t1);\<close> and the line that shows t1's name.\<close>

definition exercise_2_3 :: "tstate \<Rightarrow> error + tstate" where
  "exercise_2_3 s0 =
     and_then (Tracer_ctor (cout s0 (newline @ rocket @ '' Exercise 2.3'' @ newline))
                 (Local 0) ''t1'') (\<lambda>s.
     and_then (Tracer_move_ctor s (Local 1) (Local 0)) (\<lambda>s.
     and_then (get_name s (Local 0)) (\<lambda>t1_name.
     scope_exit (cout s (''State of t1: name = '' @ [CHR 0x27] @ t1_name @ [CHR 0x27] @ newline))
       [Local 0, Local 1])))"

text \<open>\<^verbatim>\<open>Tracer a("Alice"); Tracer b("Bob"); a = std::move(b);\<close> with the two lines that show
  both names before and after.\<close>

definition exercise_5_1 :: "tstate \<Rightarrow> error + tstate" where
  "exercise_5_1 s0 =
     and_then (Tracer_ctor (cout s0 (newline @ rocket @ '' Exercise 5.1'' @ newline))
                 (Local 0) ''Alice'') (\<lambda>s.
     and_then (Tracer_ctor s (Local 1) ''Bob'') (\<lambda>s.
     and_then (get_name s (Local 0)) (\<lambda>a_name.
     and_then (get_name s (Local 1)) (\<lambda>b_name.
     and_then (Tracer_move_assign
                 (cout s (''Before move: a = '' @ a_name @ '', b = '' @ b_name @ newline))
                 (Local 0) (Local 1)) (\<lambda>s.
     and_then (get_name s (Local 0)) (\<lambda>a_name.
     and_then (get_name s (Local 1)) (\<lambda>b_name.
     scope_exit (cout s (''After move:  a = '' @ a_name @ '', b = '' @ b_name @ newline))
       [Local 0, Local 1])))))))"

subsection \<open>The growing vector of exercise 6.1\<close>

text \<open>
  Modelled from the spec: \<^verbatim>\<open>std::vector\<close>, which belongs to the standard library and not to
  the repository.  The spec describes container growth as the behaviour of an external
  collaborator: relocation chooses between copy and move by whether the move is guaranteed not
  to fail, and on reallocation each element is relocated by one move construction, with the
  destructor of the vacated element of the old buffer in between.  That is how libstdc++
  behaves and what the answer key 01_rule_of_five.md records.  A vector is its current buffer,
  its size and its capacity; element \<open>i\<close> lives at \<open>Slot buffer i\<close>.  \<^verbatim>\<open>emplace_back\<close> on
  a full vector takes a new buffer of the doubled capacity, constructs the new element there,
  and relocates the old elements one by one: when the element type is nothrow move
  constructible each element is move-constructed into the new buffer and the vacated one is
  destroyed at once; otherwise all elements are copied first and the old ones are destroyed
  afterwards.
\<close>

record vector =
  v_buf :: nat
  v_size :: nat
  v_capacity :: nat

definition vector_ctor :: vector where
  "vector_ctor = \<lparr>v_buf = 0, v_size = 0, v_capacity = 0\<rparr>"

text \<open>The move constructor of \<open>Tracer\<close> is declared \<^verbatim>\<open>noexcept\<close>.\<close>

definition Tracer_nothrow_move_constructible :: bool where
  "Tracer_nothrow_move_constructible = True"

text \<open>Modelled from the spec: relocation by move, element after element, each vacated element
  destroyed at once.\<close>

fun relocate_by_move :: "tstate \<Rightarrow> nat \<Rightarrow> nat \<Rightarrow> nat list \<Rightarrow> error + tstate" where
  "relocate_by_move s old new [] = Inr s"
| "relocate_by_move s old new (i # is) =
     and_then (Tracer_move_ctor s (Slot new i) (Slot old i)) (\<lambda>s1.
     and_then (Tracer_dtor s1 (Slot old i)) (\<lambda>s2.
     relocate_by_move s2 old new is))"

text \<open>Modelled from the spec: relocation by copy, for an element type whose move may throw.\<close>

fun copy_all :: "tstate \<Rightarrow> nat \<Rightarrow> nat \<Rightarrow> nat list \<Rightarrow> error + tstate" where
  "copy_all s old new [] = Inr s"
| "copy_all s old new (i # is) =
     and_then (Tracer_copy_ctor s (Slot new i) (Slot old i)) (\<lambda>s1.
     copy_all s1 old new is)"

text \<open>Modelled from the spec: the choice between the two.\<close>

definition relocate :: "bool \<Rightarrow> tstate \<Rightarrow> nat \<Rightarrow> nat \<Rightarrow> nat \<Rightarrow> error + tstate" where
  "relocate nothrow_move s old new n =
     (if nothrow_move then relocate_by_move s old new [0..<n]
      else and_then (copy_all s old new [0..<n]) (\<lambda>s1.
           destroy_all s1 (map (Slot old) [0..<n])))"

text \<open>Modelled from the spec: \<^verbatim>\<open>reserve\<close> relocates into a larger buffer when the capacity
  is too small.\<close>

definition vector_reserve :: "tstate \<Rightarrow> vector \<Rightarrow> nat \<Rightarrow> error + tstate \<times> vector" where
  "vector_reserve s v n =
     (if n \<le> v_capacity v then Inr (s, v)
      else and_then (relocate Tracer_nothrow_move_constructible s (v_buf v) (v_buf v + 1)
                       (v_size v)) (\<lambda>s1.
           Inr (s1, \<lparr>v_buf = v_buf v + 1, v_size = v_size v, v_capacity = n\<rparr>)))"

text \<open>Modelled from the spec: \<^verbatim>\<open>emplace_back\<close> constructs in place while there is room and
  grows the vector otherwise.\<close>

definition vector_emplace_back :: "tstate \<Rightarrow> vector \<Rightarrow> string \<Rightarrow> error + tstate \<times> vector" where
  "vector_emplace_back s v n =
     (if v_size v < v_capacity v
      then and_then (Tracer_ctor s (Slot (v_buf v) (v_size v)) n) (\<lambda>s1.
           Inr (s1, v\<lparr>v_size := v_size v + 1\<rparr>))
      else and_then (Tracer_ctor s (Slot (v_buf v + 1) (v_size v)) n) (\<lambda>s1.
           and_then (relocate Tracer_nothrow_move_constructible s1 (v_buf v) (v_buf v + 1)
                       (v_size v)) (\<lambda>s2.
           Inr (s2, \<lparr>v_buf = v_buf v + 1, v_size = v_size v + 1,
                     v_capacity = v_size v + max (v_size v) 1\<rparr>))))"

text \<open>Modelled from the spec: the vector's destructor destroys its elements from the first to
  the last.\<close>

definition vector_dtor :: "tstate \<Rightarrow> vector \<Rightarrow> error + tstate" where
  "vector_dtor s v = destroy_all s (map (Slot (v_buf v)) [0..<v_size v])"

definition digit_char :: "nat \<Rightarrow> char" where
  "digit_char d = ''0123456789'' ! d"

fun string_of_nat :: "nat \<Rightarrow> string" where
  "string_of_nat n =
     (if n < 10 then [digit_char n] else string_of_nat (n div 10) @ [digit_char (n mod 10)])"

declare string_of_nat.simps [simp del]

definition string_of_int :: "int \<Rightarrow> string" where
  "string_of_int i = (if i < 0 then ''-'' @ string_of_nat (nat (- i)) else string_of_nat (nat i))"

text \<open>Exercise 6.1 up to and including the four \<^verbatim>\<open>emplace_back\<close> calls that fill the
  reserved buffer.\<close>

definition exercise_6_1_fill :: "tstate \<Rightarrow> error + tstate \<times> vector" where
  "exercise_6_1_fill s0 =
     and_then (vector_reserve (cout s0 (newline @ rocket @ '' Exercise 6.1'' @ newline))
                 vector_ctor 4) (\<lambda>(s, vec).
     and_then (vector_emplace_back (cout s (''Adding 4 elements...'' @ newline)) vec ''v0'')
       (\<lambda>(s, vec).
     and_then (vector_emplace_back s vec ''v1'') (\<lambda>(s, vec).
     and_then (vector_emplace_back s vec ''v2'') (\<lambda>(s, vec).
     vector_emplace_back s vec ''v3''))))"

text \<open>The fifth \<^verbatim>\<open>emplace_back\<close>, after the line that announces it.\<close>

definition exercise_6_1_grow :: "tstate \<times> vector \<Rightarrow> error + tstate \<times> vector" where
  "exercise_6_1_grow = (\<lambda>(s, vec).
     vector_emplace_back (cout s (''Forcing reallocation...'' @ newline)) vec ''v4'')"

definition exercise_6_1 :: "tstate \<Rightarrow> error + tstate" where
  "exercise_6_1 s0 =
     and_then (exercise_6_1_fill s0) (\<lambda>filled.
     and_then (exercise_6_1_grow filled) (\<lambda>(s, vec).
     vector_dtor (cout s (''Size of vector: '' @ string_of_nat (v_size vec)
                          @ '', capacity of vector: '' @ string_of_nat (v_capacity vec)
                          @ newline)) vec))"

section \<open>Shallow and deep copies of a string (01_naive_string.h, 02_better_string.h)\<close>

text \<open>
  The cells of this program's heap are character arrays.  A C string is the characters up to
  the first NUL; \<^verbatim>\<open>new char[n]\<close> yields an array of \<open>n\<close> characters (their initial values
  do not matter, \<^verbatim>\<open>strcpy\<close> overwrites what is read later).
\<close>

record sstate =
  sheap :: "string heap"
  sout :: string

definition sinit :: sstate where
  "sinit = \<lparr>sheap = [], sout = []\<rparr>"

definition scout :: "sstate \<Rightarrow> string \<Rightarrow> sstate" where
  "scout s txt = s\<lparr>sout := sout s @ txt\<rparr>"

definition NUL :: char where
  "NUL = CHR 0x00"

definition c_str :: "string \<Rightarrow> string" where
  "c_str cs = takeWhile (\<lambda>c. c \<noteq> NUL) cs"

definition strlen :: "string \<Rightarrow> nat" where
  "strlen cs = length (c_str cs)"

text \<open>Reading the C string stored in an array; an array without a NUL is read past its end.\<close>

definition read_c_str :: "string heap \<Rightarrow> ptr \<Rightarrow> error + string" where
  "read_c_str h p =
     (case deref h p of
        Inl e \<Rightarrow> Inl e
      | Inr buf \<Rightarrow> (if NUL \<in> set buf then Inr (c_str buf) else Inl OutOfBounds))"

definition strcpy :: "string heap \<Rightarrow> ptr \<Rightarrow> string \<Rightarrow> error + string heap" where
  "strcpy h dst src =
     (case deref h dst of
        Inl e \<Rightarrow> Inl e
      | Inr buf \<Rightarrow>
          (let copied = c_str src @ [NUL]
           in if length copied \<le> length buf
              then assign_through h dst (copied @ drop (length copied) buf)
              else Inl OutOfBounds))"

text \<open>\<^verbatim>\<open>p[i] = c\<close>\<close>

definition store_char :: "string heap \<Rightarrow> ptr \<Rightarrow> nat \<Rightarrow> char \<Rightarrow> error + string heap" where
  "store_char h p i c =
     (case deref h p of
        Inl e \<Rightarrow> Inl e
      | Inr buf \<Rightarrow> (if i < length buf then assign_through h p (buf[i := c]) else Inl OutOfBounds))"

record NaiveString =
  m_data :: ptr
  m_size :: nat

text \<open>\<open>BetterString\<close> has the same two members.\<close>

type_synonym BetterString = NaiveString

definition NaiveString_ctor :: "sstate \<Rightarrow> string \<Rightarrow> error + NaiveString \<times> sstate" where
  "NaiveString_ctor s initial_data =
     (let s1 = scout s (''Constructor called for '' @ [CHR 0x27] @ c_str initial_data
                        @ [CHR 0x27] @ newline);
          size = strlen initial_data + 1;
          (a, h) = op_new (sheap s1) (replicate size NUL)
      in (case strcpy h (Some a) initial_data of
            Inl e \<Rightarrow> Inl e
          | Inr h' \<Rightarrow> Inr (\<lparr>m_data = Some a, m_size = size\<rparr>, s1\<lparr>sheap := h'\<rparr>)))"

text \<open>The copy constructor the compiler generates for \<open>NaiveString\<close>, as the comment in the
  source spells it out: both members are copied, the pointer as a pointer.\<close>

definition NaiveString_copy_ctor :: "NaiveString \<Rightarrow> NaiveString" where
  "NaiveString_copy_ctor other = \<lparr>m_data = m_data other, m_size = m_size other\<rparr>"

text \<open>\<^verbatim>\<open>~NaiveString()\<close>: the line with the string is printed, then \<^verbatim>\<open>delete[] m_data\<close>.\<close>

definition NaiveString_dtor :: "sstate \<Rightarrow> NaiveString \<Rightarrow> error + sstate" where
  "NaiveString_dtor s this =
     (case read_c_str (sheap s) (m_data this) of
        Inl e \<Rightarrow> Inl e
      | Inr txt \<Rightarrow>
          (let s1 = scout s (''Destructor called for '' @ [CHR 0x27] @ txt @ [CHR 0x27] @ newline)
           in (case op_delete (sheap s1) (m_data this) of
                 Inl e \<Rightarrow> Inl e
               | Inr h \<Rightarrow> Inr (s1\<lparr>sheap := h\<rparr>))))"

definition NaiveString_print :: "sstate \<Rightarrow> NaiveString \<Rightarrow> error + sstate" where
  "NaiveString_print s this =
     (case read_c_str (sheap s) (m_data this) of
        Inl e \<Rightarrow> Inl e
      | Inr txt \<Rightarrow> Inr (scout s (txt @ newline)))"

text \<open>\<^verbatim>\<open>str.m_data[i] = c\<close>\<close>

definition set_char :: "sstate \<Rightarrow> NaiveString \<Rightarrow> nat \<Rightarrow> char \<Rightarrow> error + sstate" where
  "set_char s str i c =
     (case store_char (sheap s) (m_data str) i c of
        Inl e \<Rightarrow> Inl e
      | Inr h \<Rightarrow> Inr (s\<lparr>sheap := h\<rparr>))"

text \<open>\<^verbatim>\<open>Program_01_Naive_String::Run\<close> up to the end of its block: the two strings and the
  state in which the block is left.\<close>

definition Program_01_Naive_String_Run_body ::
  "sstate \<Rightarrow> error + NaiveString \<times> NaiveString \<times> sstate" where
  "Program_01_Naive_String_Run_body s0 =
     and_then (NaiveString_ctor s0 ''Hello'') (\<lambda>(str1, s).
     (let str2 = NaiveString_copy_ctor str1
      in and_then (NaiveString_print
                     (scout (scout s (''Copying str1 to str2...'' @ newline)) ''str1: '') str1)
           (\<lambda>s.
         and_then (NaiveString_print (scout s ''str2: '') str2) (\<lambda>s.
         and_then (set_char s str2 0 CHR ''J'') (\<lambda>s.
         and_then (NaiveString_print
                     (scout (scout s (newline @ ''After modifying str2:'' @ newline)) ''str1: '')
                     str1) (\<lambda>s.
         and_then (NaiveString_print (scout s ''str2: '') str2) (\<lambda>s.
         Inr (str1, str2,
              scout s (newline @ ''Exiting main. Destructors will be called.''
                       @ newline)))))))))"

text \<open>Leaving the block destroys \<open>str2\<close>, then \<open>str1\<close>.\<close>

definition Program_01_Naive_String_Run :: "sstate \<Rightarrow> error + sstate" where
  "Program_01_Naive_String_Run s0 =
     and_then (Program_01_Naive_String_Run_body s0) (\<lambda>(str1, str2, s).
     and_then (NaiveString_dtor s str2) (\<lambda>s.
     NaiveString_dtor s str1))"

text \<open>\<open>BetterString\<close>: constructor and destructor are those of \<open>NaiveString\<close>; the copy
  constructor allocates an array of its own and copies the characters.\<close>

definition BetterString_ctor :: "sstate \<Rightarrow> string \<Rightarrow> error + BetterString \<times> sstate" where
  "BetterString_ctor = NaiveString_ctor"

definition BetterString_dtor :: "sstate \<Rightarrow> BetterString \<Rightarrow> error + sstate" where
  "BetterString_dtor = NaiveString_dtor"

definition BetterString_copy_ctor :: "sstate \<Rightarrow> BetterString \<Rightarrow> error + BetterString \<times> sstate"
  where
  "BetterString_copy_ctor s other =
     (let s1 = scout s (''Deep copy constructor called.'' @ newline);
          (a, h) = op_new (sheap s1) (replicate (m_size other) NUL)
      in (case deref h (m_data other) of
            Inl e \<Rightarrow> Inl e
          | Inr src \<Rightarrow>
              (case strcpy h (Some a) src of
                 Inl e \<Rightarrow> Inl e
               | Inr h' \<Rightarrow> Inr (\<lparr>m_data = Some a, m_size = m_size other\<rparr>, s1\<lparr>sheap := h'\<rparr>))))"

definition Program_02_Better_String_Run :: "sstate \<Rightarrow> error + sstate" where
  "Program_02_Better_String_Run s0 =
     and_then (BetterString_ctor s0 ''Hello'') (\<lambda>(str1, s).
     and_then (BetterString_copy_ctor s str1) (\<lambda>(str2, s).
     and_then (NaiveString_print (scout s ''str1: '') str1) (\<lambda>s.
     and_then (NaiveString_print (scout s ''str2: '') str2) (\<lambda>s.
     and_then (set_char s str2 0 CHR ''J'') (\<lambda>s.
     and_then (NaiveString_print
                 (scout (scout s (newline @ ''After modifying str2:'' @ newline)) ''str1: '')
                 str1) (\<lambda>s.
     and_then (NaiveString_print (scout s ''str2: '') str2) (\<lambda>s.
     and_then (BetterString_dtor
                 (scout s (newline @ ''Exiting main. Destructors will be called.'' @ newline))
                 str2) (\<lambda>s.
     BetterString_dtor s str1))))))))"

section \<open>Program entry: selecting a demonstration by number\<close>

text \<open>
  Each \<^verbatim>\<open>main\<close> takes the selector from \<^verbatim>\<open>argv[1]\<close> with \<^verbatim>\<open>std::atoi\<close> when an argument is
  given and a default otherwise, prints the banner and switches on the selector.  \<open>atoi\<close>
  (the C library's) is a parameter; \<open>argv\<close> includes the program name, \<^verbatim>\<open>argc\<close> is its length.
\<close>

definition programId_of :: "int \<Rightarrow> (string \<Rightarrow> int) \<Rightarrow> string list \<Rightarrow> int" where
  "programId_of dflt atoi argv = (if length argv > 1 then atoi (argv ! 1) else dflt)"

definition banner :: "int \<Rightarrow> string" where
  "banner programId = ''Running program '' @ string_of_int programId @ ''...'' @ newline"

text \<open>shallow_vs_deep_copy/src/main.cpp\<close>

definition main_shallow_vs_deep_copy ::
  "(string \<Rightarrow> int) \<Rightarrow> string list \<Rightarrow> sstate \<Rightarrow> error + int \<times> sstate" where
  "main_shallow_vs_deep_copy atoi argv s0 =
     (let programId = programId_of 1 atoi argv;
          s = scout s0 (banner programId)
      in if programId = 1 then and_then (Program_01_Naive_String_Run s) (\<lambda>s'. Inr (0, s'))
         else if programId = 2 then and_then (Program_02_Better_String_Run s) (\<lambda>s'. Inr (0, s'))
         else Inr (0, s))"

text \<open>The \<^verbatim>\<open>main\<close> with four programs and default 4 (std_format with locales).  Its programs
  format numbers and dates under locales; they are parameters here, each a function from the
  standard output so far to the standard output after it, or a failure.\<close>

definition main_std_format ::
  "(string \<Rightarrow> 'e + string) \<Rightarrow> (string \<Rightarrow> 'e + string) \<Rightarrow> (string \<Rightarrow> 'e + string) \<Rightarrow>
   (string \<Rightarrow> 'e + string) \<Rightarrow> (string \<Rightarrow> int) \<Rightarrow> string list \<Rightarrow> string \<Rightarrow> 'e + int \<times> string"
  where
  "main_std_format run1 run2 run3 run4 atoi argv out0 =
     (let programId = programId_of 4 atoi argv;
          out1 = out0 @ banner programId;
          return0 = (\<lambda>r. case r of Inl e \<Rightarrow> Inl e | Inr out2 \<Rightarrow> Inr (0, out2))
      in if programId = 1 then return0 (run1 out1)
         else if programId = 2 then return0 (run2 out1)
         else if programId = 3 then return0 (run3 out1)
         else if programId = 4 then return0 (run4 out1)
         else Inr (0, out1))"

section \<open>Observations and example states\<close>

definition output_of :: "error + tstate \<Rightarrow> error + string" where
  "output_of r = (case r of Inl e \<Rightarrow> Inl e | Inr s \<Rightarrow> Inr (out s))"

definition output_of_vec :: "error + tstate \<times> vector \<Rightarrow> error + string" where
  "output_of_vec r = (case r of Inl e \<Rightarrow> Inl e | Inr (s, v) \<Rightarrow> Inr (out s))"

definition history_of :: "error + tstate \<Rightarrow> error + lifetime list" where
  "history_of r = (case r of Inl e \<Rightarrow> Inl e | Inr s \<Rightarrow> Inr (history s))"

definition history_of_vec :: "error + tstate \<times> vector \<Rightarrow> error + lifetime list" where
  "history_of_vec r = (case r of Inl e \<Rightarrow> Inl e | Inr (s, v) \<Rightarrow> Inr (history s))"

definition name_after :: "error + tstate \<Rightarrow> loc \<Rightarrow> error + string" where
  "name_after r l = and_then r (\<lambda>s. get_name s l)"


fun began :: "lifetime list \<Rightarrow> loc list" where
  "began [] = []"
| "began (Began l # es) = l # began es"
| "began (Ended l # es) = began es"

fun ended :: "lifetime list \<Rightarrow> loc list" where
  "ended [] = []"
| "ended (Began l # es) = ended es"
| "ended (Ended l # es) = l # ended es"

text \<open>At least two objects were constructed, all of them were destroyed, and the destructors
  ran in the reverse order of the constructors.\<close>

definition destroyed_in_reverse :: "error + tstate \<Rightarrow> bool" where
  "destroyed_in_reverse r =
     (case r of
        Inl e \<Rightarrow> False
      | Inr s \<Rightarrow> 2 \<le> length (began (history s)) \<and> ended (history s) = rev (began (history s)))"

text \<open>Lines: \<open>unlines\<close> ends each line with a newline and puts the lines together.\<close>

definition unlines :: "string list \<Rightarrow> string" where
  "unlines ls = concat (map (\<lambda>l. l @ newline) ls)"

fun contains :: "string \<Rightarrow> string \<Rightarrow> bool" where
  "contains pat [] = (pat = [])"
| "contains pat (c # cs) = (take (length pat) (c # cs) = pat \<or> contains pat cs)"

definition count_lines_with :: "string \<Rightarrow> string list \<Rightarrow> nat" where
  "count_lines_with pat ls = length (filter (contains pat) ls)"

text \<open>\<^verbatim>\<open>Tracer t1("t1");\<close> from the empty state.\<close>

definition t1_constructed :: tstate where
  "t1_constructed =
     \<lparr>heap = [Some 42],
      objs = (\<lambda>_. None)(Local 0 \<mapsto> \<lparr>name = ''t1'', resource = Some 0\<rparr>),
      out = ''  t1: Constructor'' @ newline,
      history = [Began (Local 0)]\<rparr>"

text \<open>\<^verbatim>\<open>Tracer t1("t1"); Tracer t4 = std::move(t1);\<close> from the empty state: \<open>Local 0\<close> is
  moved-from.\<close>

definition t1_moved_from :: tstate where
  "t1_moved_from =
     \<lparr>heap = [Some 42],
      objs = (\<lambda>_. None)(Local 0 \<mapsto> \<lparr>name = ''t1 [moved]'', resource = None\<rparr>,
                          Local 1 \<mapsto> \<lparr>name = ''t1'', resource = Some 0\<rparr>),
      out = ''  t1: Constructor'' @ newline @ ''  t1: MOVE Constructor from t1'' @ newline,
      history = [Began (Local 0), Began (Local 1)]\<rparr>"

text \<open>\<^verbatim>\<open>Tracer a("Alice"); Tracer b("Bob");\<close> from the empty state.\<close>

definition alice_and_bob :: tstate where
  "alice_and_bob =
     \<lparr>heap = [Some 42, Some 42],
      objs = (\<lambda>_. None)(Local 0 \<mapsto> \<lparr>name = ''Alice'', resource = Some 0\<rparr>,
                          Local 1 \<mapsto> \<lparr>name = ''Bob'', resource = Some 1\<rparr>),
      out = ''  Alice: Constructor'' @ newline @ ''  Bob: Constructor'' @ newline,
      history = [Began (Local 0), Began (Local 1)]\<rparr>"

text \<open>The two strings of \<open>Program_01_Naive_String\<close> are this one value.\<close>

definition hello :: NaiveString where
  "hello = \<lparr>m_data = Some 0, m_size = 6\<rparr>"

definition naive_block_end :: sstate where
  "naive_block_end =
     \<lparr>sheap = [Some (''Jello'' @ [NUL])],
      sout = unlines
        [''Constructor called for '' @ [CHR 0x27] @ ''Hello'' @ [CHR 0x27],
         ''Copying str1 to str2...'',
         ''str1: Hello'',
         ''str2: Hello'',
         '''',
         ''After modifying str2:'',
         ''str1: Jello'',
         ''str2: Jello'',
         '''',
         ''Exiting main. Destructors will be called.'']\<rparr>"

definition naive_str2_destroyed :: sstate where
  "naive_str2_destroyed =
     \<lparr>sheap = [None],
      sout = sout naive_block_end
             @ unlines [''Destructor called for '' @ [CHR 0x27] @ ''Jello'' @ [CHR 0x27]]\<rparr>"

text \<open>The lines of exercise 6.1 up to the filled buffer, and the lines and lifetimes of the
  fifth \<^verbatim>\<open>emplace_back\<close>.\<close>

definition fill_lines :: "string list" where
  "fill_lines =
     ['''', rocket @ '' Exercise 6.1'', ''Adding 4 elements...'',
      ''  v0: Constructor'', ''  v1: Constructor'', ''  v2: Constructor'', ''  v3: Constructor'']"

definition reallocation_lines :: "string list" where
  "reallocation_lines =
     [''  v4: Constructor'',
      ''  v0: MOVE Constructor from v0'', ''  v0 [moved]: Destructor'',
      ''  v1: MOVE Constructor from v1'', ''  v1 [moved]: Destructor'',
      ''  v2: MOVE Constructor from v2'', ''  v2 [moved]: Destructor'',
      ''  v3: MOVE Constructor from v3'', ''  v3 [moved]: Destructor'']"

definition reallocation_history :: "lifetime list" where
  "reallocation_history =
     [Began (Slot 2 4),
      Began (Slot 2 0), Ended (Slot 1 0),
      Began (Slot 2 1), Ended (Slot 1 1),
      Began (Slot 2 2), Ended (Slot 1 2),
      Began (Slot 2 3), Ended (Slot 1 3)]"

section \<open>Facts about the memory model and the example states\<close>

lemmas tracer_defs = Tracer_ctor_def Tracer_dtor_def Tracer_copy_ctor_def Tracer_copy_assign_def
  Tracer_move_ctor_def Tracer_move_assign_def op_new_def op_delete_def deref_def

lemma t1_constructed_reached: "Tracer_ctor init (Local 0) ''t1'' = Inr t1_constructed"
  by (simp add: tracer_defs init_def t1_constructed_def)

lemma t1_moved_from_reached: "Tracer_move_ctor t1_constructed (Local 1) (Local 0) = Inr t1_moved_from"
  by (simp add: tracer_defs t1_moved_from_def t1_constructed_def fun_upd_twist)

lemma alice_and_bob_reached:
  "and_then (Tracer_ctor init (Local 0) ''Alice'') (\<lambda>s. Tracer_ctor s (Local 1) ''Bob'') = Inr alice_and_bob"
  by (simp add: tracer_defs init_def alice_and_bob_def and_then_def)

subsection \<open>The invariant under the changes the operations make\<close>

lemma owned_live:
  "owned h ob \<Longrightarrow> ob l = Some t \<Longrightarrow> resource t = Some a \<Longrightarrow> a < length h \<and> h ! a \<noteq> None"
  unfolding owned_def by blast

lemma owned_unique:
  "owned h ob \<Longrightarrow> ob l1 = Some t1 \<Longrightarrow> ob l2 = Some t2 \<Longrightarrow>
   resource t1 = Some a \<Longrightarrow> resource t2 = Some a \<Longrightarrow> l1 = l2"
  unfolding owned_def by blast

lemma owned_null: "owned h ob \<Longrightarrow> resource t = None \<Longrightarrow> owned h (ob(l \<mapsto> t))"
  unfolding owned_def by (simp split: if_splits)

lemma owned_alloc:
  assumes "owned h ob" "resource t = Some (length h)"
  shows "owned (h @ [Some v]) (ob(l \<mapsto> t))"
  unfolding owned_def
proof (intro conjI allI impI)
  fix l' t' a assume h: "(ob(l \<mapsto> t)) l' = Some t'" "resource t' = Some a"
  show "a < length (h @ [Some v])"
    using h assms owned_live[OF assms(1)] by (cases "l' = l") (auto simp: less_Suc_eq)
  show "(h @ [Some v]) ! a \<noteq> None"
    using h assms owned_live[OF assms(1)] by (cases "l' = l") (auto simp: nth_append)
next
  fix l1 l2 t1 t2 a
  assume h: "(ob(l \<mapsto> t)) l1 = Some t1" "(ob(l \<mapsto> t)) l2 = Some t2"
    "resource t1 = Some a" "resource t2 = Some a"
  show "l1 = l2"
  proof (cases "l1 = l")
    case True
    with h assms have "a = length h" by simp
    with h assms owned_live[OF assms(1), of l2 t2 a] show ?thesis
      by (cases "l2 = l") (auto simp: True)
  next
    case False
    with h have o1: "ob l1 = Some t1" by simp
    show ?thesis
    proof (cases "l2 = l")
      case True
      with h assms have "a = length h" by simp
      with owned_live[OF assms(1) o1 h(3)] show ?thesis by simp
    next
      case False
      with h have "ob l2 = Some t2" by simp
      from owned_unique[OF assms(1) o1 this h(3) h(4)] show ?thesis .
    qed
  qed
qed

lemma owned_free:
  assumes "owned h ob" "ob l = Some t" "resource t = Some a"
  shows "owned (h[a := None]) (ob(l := None))"
  unfolding owned_def
proof (intro conjI allI impI)
  fix l' t' a' assume h: "(ob(l := None)) l' = Some t'" "resource t' = Some a'"
  then have ne: "l' \<noteq> l" and o: "ob l' = Some t'" by (auto split: if_splits)
  from owned_unique[OF assms(1) o assms(2) h(2)] ne assms(3) have "a' \<noteq> a" by auto
  with owned_live[OF assms(1) o h(2)]
  show "a' < length (h[a := None])" "h[a := None] ! a' \<noteq> None" by auto
next
  fix l1 l2 t1 t2 a'
  assume h: "(ob(l := None)) l1 = Some t1" "(ob(l := None)) l2 = Some t2"
    "resource t1 = Some a'" "resource t2 = Some a'"
  then have "ob l1 = Some t1" "ob l2 = Some t2" by (auto split: if_splits)
  from owned_unique[OF assms(1) this h(3) h(4)] show "l1 = l2" .
qed

lemma length_released [simp]: "length (released h p) = length h"
  by (simp add: released_def split: option.splits)

lemma owned_release:
  assumes "owned h ob" "ob l = Some t"
  shows "owned (released h (resource t)) (ob(l := None))"
proof (cases "resource t")
  case None
  from assms(1) have "owned h (ob(l := None))"
    unfolding owned_def by (simp split: if_splits)
  with None show ?thesis by (simp add: released_def)
next
  case (Some a)
  from owned_free[OF assms Some] Some show ?thesis by (simp add: released_def)
qed

lemma op_delete_owned:
  assumes "owned h ob" "ob l = Some t"
  shows "op_delete h (resource t) = Inr (released h (resource t))"
proof (cases "resource t")
  case None
  then show ?thesis by (simp add: op_delete_def released_def)
next
  case (Some a)
  from owned_live[OF assms Some] Some show ?thesis
    by (auto simp: op_delete_def released_def)
qed

lemma deref_owned:
  assumes "owned h ob" "ob l = Some t" "resource t = Some a"
  shows "\<exists>v. h ! a = Some v \<and> deref h (resource t) = Inr v"
  using owned_live[OF assms] assms(3) by (auto simp: deref_def)

lemma owned_transfer:
  assumes "owned h ob" "ob l = Some u" "resource t = resource u" "resource u' = None"
  shows "owned h (ob(l' \<mapsto> t, l \<mapsto> u'))"
  unfolding owned_def
proof (intro conjI allI impI)
  fix x t' a assume h: "(ob(l' \<mapsto> t, l \<mapsto> u')) x = Some t'" "resource t' = Some a"
  show "a < length h" "h ! a \<noteq> None"
    using h assms owned_live[OF assms(1)] by (auto split: if_splits)
next
  fix l1 l2 t1 t2 a
  assume h: "(ob(l' \<mapsto> t, l \<mapsto> u')) l1 = Some t1" "(ob(l' \<mapsto> t, l \<mapsto> u')) l2 = Some t2"
    "resource t1 = Some a" "resource t2 = Some a"
  show "l1 = l2"
    using h assms owned_unique[OF assms(1)]
    by (auto split: if_splits) metis+
qed

subsection \<open>Each operation on a state that satisfies the invariant\<close>

lemma ctor_ok:
  assumes "single_owner s"
  shows "\<exists>s'. Tracer_ctor s this n = Inr s' \<and> single_owner s' \<and>
     out s' = out s @ ''  '' @ n @ '': Constructor'' @ newline \<and>
     heap s' = heap s @ [Some 42] \<and>
     objs s' = (objs s)(this \<mapsto> \<lparr>name = n, resource = Some (length (heap s))\<rparr>)"
  using assms owned_alloc[of "heap s" "objs s" "\<lparr>name = n, resource = Some (length (heap s))\<rparr>" 42 this]
  by (simp add: Tracer_ctor_def op_new_def single_owner_def)

lemma dtor_ok:
  assumes "single_owner s" "objs s this = Some t"
  shows "\<exists>s'. Tracer_dtor s this = Inr s' \<and> single_owner s' \<and>
     out s' = out s @ ''  '' @ name t @ '': Destructor'' @ newline \<and>
     heap s' = released (heap s) (resource t) \<and>
     objs s' = (objs s)(this := None)"
  using assms op_delete_owned[of "heap s" "objs s" this t] owned_release[of "heap s" "objs s" this t]
  by (simp add: Tracer_dtor_def single_owner_def)

lemma copy_ctor_ok:
  assumes "single_owner s" "objs s other = Some u" "resource u = Some a"
  shows "\<exists>s' v. Tracer_copy_ctor s this other = Inr s' \<and> single_owner s' \<and>
     out s' = out s @ ''  '' @ name u @ '': COPY Constructor from '' @ name u @ newline \<and>
     heap s ! a = Some v \<and> heap s' = heap s @ [Some v] \<and>
     objs s' = (objs s)(this \<mapsto> \<lparr>name = name u, resource = Some (length (heap s))\<rparr>)"
proof -
  from assms obtain v where v: "heap s ! a = Some v" "deref (heap s) (resource u) = Inr v"
    using deref_owned[of "heap s" "objs s" other u a] by (auto simp: single_owner_def)
  from assms(1) have "owned (heap s @ [Some v])
      ((objs s)(this \<mapsto> \<lparr>name = name u, resource = Some (length (heap s))\<rparr>))"
    by (simp add: owned_alloc single_owner_def)
  with assms v show ?thesis
    by (simp add: Tracer_copy_ctor_def op_new_def single_owner_def)
qed

lemma released_append:
  assumes "owned h ob" "ob l = Some t"
  shows "released (h @ [x]) (resource t) = released h (resource t) @ [x]"
proof (cases "resource t")
  case None
  then show ?thesis by (simp add: released_def)
next
  case (Some a)
  from owned_live[OF assms Some] Some show ?thesis
    by (simp add: released_def list_update_append1)
qed

lemma op_delete_append:
  assumes "owned h ob" "ob l = Some t"
  shows "op_delete (h @ [x]) (resource t) = Inr (released h (resource t) @ [x])"
proof (cases "resource t")
  case None
  then show ?thesis by (simp add: op_delete_def released_def)
next
  case (Some a)
  from owned_live[OF assms Some] Some show ?thesis
    by (auto simp: op_delete_def released_def list_update_append1 nth_append)
qed

lemma copy_assign_ok:
  assumes "single_owner s" "this \<noteq> other" "objs s this = Some t" "objs s other = Some u"
    "resource u = Some a"
  shows "\<exists>s' v. Tracer_copy_assign s this other = Inr s' \<and> single_owner s' \<and>
     out s' = out s @ ''  '' @ name t @ '': COPY Assignment from '' @ name u @ newline \<and>
     heap s ! a = Some v \<and> heap s' = released (heap s) (resource t) @ [Some v] \<and>
     objs s' = (objs s)(this \<mapsto> \<lparr>name = name u, resource = Some (length (heap s))\<rparr>)"
proof -
  from assms have ow: "owned (heap s) (objs s)" by (simp add: single_owner_def)
  from deref_owned[OF ow assms(4,5)] obtain v where
    v: "heap s ! a = Some v" "deref (heap s) (resource u) = Inr v" by blast
  have del: "op_delete (heap s @ [Some v]) (resource t) = Inr (released (heap s) (resource t) @ [Some v])"
    by (rule op_delete_append[OF ow assms(3)])
  have "owned (released (heap s) (resource t)) ((objs s)(this := None))"
    by (rule owned_release[OF ow assms(3)])
  from owned_alloc[OF this, of "\<lparr>name = name u, resource = Some (length (heap s))\<rparr>" v this]
  have "owned (released (heap s) (resource t) @ [Some v])
      ((objs s)(this \<mapsto> \<lparr>name = name u, resource = Some (length (heap s))\<rparr>))"
    by simp
  with assms v del show ?thesis
    by (simp add: Tracer_copy_assign_def op_new_def single_owner_def)
qed

lemma move_ctor_ok:
  assumes "single_owner s" "objs s other = Some u"
  shows "\<exists>s'. Tracer_move_ctor s this other = Inr s' \<and> single_owner s' \<and>
     out s' = out s @ ''  '' @ name u @ '': MOVE Constructor from '' @ name u @ newline \<and>
     heap s' = heap s \<and>
     objs s' = (objs s)(this \<mapsto> \<lparr>name = name u, resource = resource u\<rparr>,
                        other \<mapsto> \<lparr>name = name u @ '' [moved]'', resource = None\<rparr>)"
proof -
  from assms have ow: "owned (heap s) (objs s)" by (simp add: single_owner_def)
  have "owned (heap s) ((objs s)(this \<mapsto> \<lparr>name = name u, resource = resource u\<rparr>,
                        other \<mapsto> \<lparr>name = name u @ '' [moved]'', resource = None\<rparr>))"
    by (rule owned_transfer[OF ow assms(2)]) simp_all
  with assms show ?thesis
    by (cases u) (simp add: Tracer_move_ctor_def single_owner_def)
qed

lemma move_assign_ok:
  assumes "single_owner s" "this \<noteq> other" "objs s this = Some t" "objs s other = Some u"
  shows "\<exists>s'. Tracer_move_assign s this other = Inr s' \<and> single_owner s' \<and>
     out s' = out s @ ''  '' @ name t @ '': MOVE Assignment from '' @ name u @ newline \<and>
     heap s' = released (heap s) (resource t) \<and>
     objs s' = (objs s)(this \<mapsto> \<lparr>name = name u, resource = resource u\<rparr>,
                        other \<mapsto> \<lparr>name = name u @ name u @ '' [moved]'', resource = None\<rparr>)"
proof -
  from assms have ow: "owned (heap s) (objs s)" by (simp add: single_owner_def)
  have del: "op_delete (heap s) (resource t) = Inr (released (heap s) (resource t))"
    by (rule op_delete_owned[OF ow assms(3)])
  have ow1: "owned (released (heap s) (resource t)) ((objs s)(this := None))"
    by (rule owned_release[OF ow assms(3)])
  from assms have o1: "((objs s)(this := None)) other = Some u" by simp
  have "owned (released (heap s) (resource t))
     (((objs s)(this := None))(this \<mapsto> \<lparr>name = name u, resource = resource u\<rparr>,
                        other \<mapsto> \<lparr>name = name u @ name u @ '' [moved]'', resource = None\<rparr>))"
    by (rule owned_transfer[OF ow1 o1]) simp_all
  with assms del show ?thesis
    by (cases u) (simp add: Tracer_move_assign_def single_owner_def)
qed

lemma harmless_Inr: "\<exists>s'. r = Inr s' \<and> single_owner s' \<Longrightarrow> harmless r"
  by (auto simp: harmless_def)

lemma step_harmless:
  assumes "single_owner s"
  shows "harmless (step s x)"
proof (cases x)
  case (Construct this n)
  with ctor_ok[OF assms, of this n] show ?thesis by (auto intro: harmless_Inr)
next
  case (Destruct this)
  show ?thesis
  proof (cases "objs s this")
    case None
    with Destruct show ?thesis by (simp add: harmless_def Tracer_dtor_def)
  next
    case (Some t)
    with Destruct dtor_ok[OF assms Some] show ?thesis by (auto intro: harmless_Inr)
  qed
next
  case (CopyConstruct this other)
  show ?thesis
  proof (cases "objs s other")
    case None
    with CopyConstruct show ?thesis by (simp add: harmless_def Tracer_copy_ctor_def)
  next
    case (Some u)
    show ?thesis
    proof (cases "resource u")
      case None
      with CopyConstruct Some show ?thesis
        by (simp add: harmless_def Tracer_copy_ctor_def deref_def)
    next
      case (Some a)
      with CopyConstruct copy_ctor_ok[OF assms \<open>objs s other = Some u\<close> Some, of this]
      show ?thesis by (auto intro: harmless_Inr)
    qed
  qed
next
  case (CopyAssign this other)
  show ?thesis
  proof (cases "this = other")
    case True
    with CopyAssign assms show ?thesis by (simp add: harmless_def Tracer_copy_assign_def)
  next
    case False
    show ?thesis
    proof (cases "objs s this")
      case None
      with CopyAssign False show ?thesis by (simp add: harmless_def Tracer_copy_assign_def)
    next
      case t: (Some t)
      show ?thesis
      proof (cases "objs s other")
        case None
        with CopyAssign False t show ?thesis by (simp add: harmless_def Tracer_copy_assign_def)
      next
        case u: (Some u)
        show ?thesis
        proof (cases "resource u")
          case None
          with CopyAssign False t u show ?thesis
            by (simp add: harmless_def Tracer_copy_assign_def deref_def)
        next
          case (Some a)
          with CopyAssign copy_assign_ok[OF assms False t u Some]
          show ?thesis by (auto intro: harmless_Inr)
        qed
      qed
    qed
  qed
next
  case (MoveConstruct this other)
  show ?thesis
  proof (cases "objs s other")
    case None
    with MoveConstruct show ?thesis by (simp add: harmless_def Tracer_move_ctor_def)
  next
    case (Some u)
    with MoveConstruct move_ctor_ok[OF assms Some, of this] show ?thesis
      by (auto intro: harmless_Inr)
  qed
next
  case (MoveAssign this other)
  show ?thesis
  proof (cases "this = other")
    case True
    with MoveAssign assms show ?thesis by (simp add: harmless_def Tracer_move_assign_def)
  next
    case False
    show ?thesis
    proof (cases "objs s this")
      case None
      with MoveAssign False show ?thesis by (simp add: harmless_def Tracer_move_assign_def)
    next
      case t: (Some t)
      show ?thesis
      proof (cases "objs s other")
        case None
        with MoveAssign False t show ?thesis by (simp add: harmless_def Tracer_move_assign_def)
      next
        case u: (Some u)
        with MoveAssign move_assign_ok[OF assms False t u]
        show ?thesis by (auto intro: harmless_Inr)
      qed
    qed
  qed
qed

lemma run_harmless: "single_owner s \<Longrightarrow> harmless (run s xs)"
proof (induction xs arbitrary: s)
  case Nil
  then show ?case by (simp add: harmless_def)
next
  case (Cons x xs)
  show ?case
  proof (cases "step s x")
    case (Inl e)
    with step_harmless[OF Cons.prems, of x] show ?thesis by (simp add: harmless_def)
  next
    case (Inr s')
    with step_harmless[OF Cons.prems, of x] have "single_owner s'" by (simp add: harmless_def)
    from Cons.IH[OF this] Inr show ?thesis by simp
  qed
qed


lemma single_owner_t1_constructed: "single_owner t1_constructed"
  by (simp add: single_owner_def owned_def t1_constructed_def)

lemma single_owner_t1_moved_from: "single_owner t1_moved_from"
  by (simp add: single_owner_def owned_def t1_moved_from_def)

lemma single_owner_alice_and_bob: "single_owner alice_and_bob"
  by (simp add: single_owner_def owned_def alice_and_bob_def)

lemma assign_all_other_cell:
  assumes "rc < length h" "h ! rc = Some w0" "ra < length h" "h ! ra = Some v" "ra \<noteq> rc"
  shows "\<exists>h'. assign_all h (Some rc) ws = Inr h' \<and> deref h' (Some ra) = Inr v \<and>
           deref h' (Some rc) = Inr (last (w0 # ws))"
  using assms
proof (induction ws arbitrary: h w0)
  case Nil
  then show ?case by (simp add: deref_def)
next
  case (Cons w ws)
  let ?h1 = "h[rc := Some w]"
  from Cons.prems have step: "assign_through h (Some rc) w = Inr ?h1"
    by (simp add: assign_through_def)
  from Cons.prems have "rc < length ?h1" "?h1 ! rc = Some w" "ra < length ?h1" "?h1 ! ra = Some v"
    by simp_all
  from Cons.IH[OF this \<open>ra \<noteq> rc\<close>] step show ?case by simp
qed

subsection \<open>Leaving a block\<close>

lemma dtor_history:
  assumes "Tracer_dtor s l = Inr s'"
  shows "history s' = history s @ [Ended l]"
  using assms by (auto simp: Tracer_dtor_def split: option.splits sum.splits)

lemma destroy_all_history:
  "destroy_all s ls = Inr s' \<Longrightarrow> history s' = history s @ map Ended ls"
proof (induction ls arbitrary: s)
  case Nil
  then show ?case by simp
next
  case (Cons l ls)
  from Cons.prems obtain s1 where s1: "Tracer_dtor s l = Inr s1" "destroy_all s1 ls = Inr s'"
    by (auto simp: and_then_def split: sum.splits)
  from dtor_history[OF s1(1)] Cons.IH[OF s1(2)] show ?case by simp
qed

lemma ended_append: "ended (xs @ ys) = ended xs @ ended ys"
  by (induction xs rule: ended.induct) simp_all

lemma ended_map_Ended: "ended (map Ended ls) = ls"
  by (induction ls) simp_all

lemma scope_exit_reverse:
  "scope_exit s locals = Inr s' \<Longrightarrow> ended (history s') = ended (history s) @ rev locals"
  using destroy_all_history[of s "rev locals" s']
  by (simp add: scope_exit_def ended_append ended_map_Ended)

section \<open>Copying\<close>

text \<open>
  C1 (as stated, refuted).  The claim: copy-construction and copy-assignment from a moved-from
  \<open>Tracer\<close> complete without an invalid dereference.  In \<open>t1_moved_from\<close> the object at
  \<open>Local 0\<close> has been moved from; both copy operations read \<^verbatim>\<open>*other.resource\<close> through its
  null pointer.
\<close>

theorem copy_from_moved_from_counterexample:
  "Tracer_copy_ctor t1_moved_from (Local 2) (Local 0) = Inl NullDeref \<and>
   Tracer_copy_assign t1_moved_from (Local 1) (Local 0) = Inl NullDeref"
  by (simp add: tracer_defs t1_moved_from_def)

text \<open>
  C1 (amended).  In a state that satisfies the ownership invariant, copy-construction from a
  live \<open>Tracer\<close>, into any location, and copy-assignment from it to any other live \<open>Tracer\<close>
  complete exactly when the source's \<open>resource\<close> is not null.  The copy then owns a newly
  allocated cell: the heap is the old one (less the cell the assigned-to object released) with
  one cell appended, the new cell holds a duplicate of the source's value, the copy's pointer
  is the new address and its name the source's, every other object is as before, and the
  invariant holds again.  From a source whose \<open>resource\<close> is null (a moved-from instance)
  both stop at the read through the null pointer.
\<close>

theorem copy_defined_iff_source_owns:
  assumes "single_owner s" "objs s other = Some u"
  shows "if resource u = None
         then Tracer_copy_ctor s dst other = Inl NullDeref \<and>
              (\<forall>this t. this \<noteq> other \<and> objs s this = Some t \<longrightarrow>
                 Tracer_copy_assign s this other = Inl NullDeref)
         else \<exists>a v. resource u = Some a \<and> a < length (heap s) \<and> heap s ! a = Some v \<and>
              (\<exists>s'. Tracer_copy_ctor s dst other = Inr s' \<and> single_owner s' \<and>
                 heap s' = heap s @ [Some v] \<and>
                 objs s' = (objs s)(dst \<mapsto> \<lparr>name = name u, resource = Some (length (heap s))\<rparr>) \<and>
                 deref (heap s') (Some (length (heap s))) = Inr v) \<and>
              (\<forall>this t. this \<noteq> other \<and> objs s this = Some t \<longrightarrow>
                 (\<exists>s'. Tracer_copy_assign s this other = Inr s' \<and> single_owner s' \<and>
                    heap s' = released (heap s) (resource t) @ [Some v] \<and>
                    objs s' = (objs s)(this \<mapsto>
                                \<lparr>name = name u, resource = Some (length (heap s))\<rparr>) \<and>
                    deref (heap s') (Some (length (heap s))) = Inr v))"
proof (cases "resource u")
  case None
  with assms show ?thesis
    by (auto simp: Tracer_copy_ctor_def Tracer_copy_assign_def deref_def)
next
  case (Some a)
  from assms have ow: "owned (heap s) (objs s)" by (simp add: single_owner_def)
  from owned_live[OF ow assms(2) Some] obtain v where
    live: "a < length (heap s)" "heap s ! a = Some v" by auto
  have ctor:
    "\<exists>s'. Tracer_copy_ctor s dst other = Inr s' \<and> single_owner s' \<and>
        heap s' = heap s @ [Some v] \<and>
        objs s' = (objs s)(dst \<mapsto> \<lparr>name = name u, resource = Some (length (heap s))\<rparr>) \<and>
        deref (heap s') (Some (length (heap s))) = Inr v"
  proof -
    from copy_ctor_ok[OF assms Some, of dst] obtain s1 v1 where
      c: "Tracer_copy_ctor s dst other = Inr s1" "single_owner s1" "heap s ! a = Some v1"
        "heap s1 = heap s @ [Some v1]"
        "objs s1 = (objs s)(dst \<mapsto> \<lparr>name = name u, resource = Some (length (heap s))\<rparr>)"
      by blast
    from c(3) live(2) have "v1 = v" by simp
    with c have "heap s1 = heap s @ [Some v]" by simp
    moreover from this have "deref (heap s1) (Some (length (heap s))) = Inr v"
      by (simp add: deref_def)
    ultimately show ?thesis using c(1,2,5) by blast
  qed
  have assign: "\<exists>s'. Tracer_copy_assign s this other = Inr s' \<and> single_owner s' \<and>
        heap s' = released (heap s) (resource t) @ [Some v] \<and>
        objs s' = (objs s)(this \<mapsto> \<lparr>name = name u, resource = Some (length (heap s))\<rparr>) \<and>
        deref (heap s') (Some (length (heap s))) = Inr v"
    if "this \<noteq> other" "objs s this = Some t" for this t
  proof -
    from copy_assign_ok[OF assms(1) that assms(2) Some] obtain s1 v1 where
      c: "Tracer_copy_assign s this other = Inr s1" "single_owner s1" "heap s ! a = Some v1"
        "heap s1 = released (heap s) (resource t) @ [Some v1]"
        "objs s1 = (objs s)(this \<mapsto> \<lparr>name = name u, resource = Some (length (heap s))\<rparr>)"
      by blast
    from c(3) live(2) have "v1 = v" by simp
    with c have "heap s1 = released (heap s) (resource t) @ [Some v]" by simp
    moreover from this have "deref (heap s1) (Some (length (heap s))) = Inr v"
      by (simp add: deref_def nth_append)
    ultimately show ?thesis using c(1,2,5) by blast
  qed
  have "\<exists>a v. resource u = Some a \<and> a < length (heap s) \<and> heap s ! a = Some v \<and>
              (\<exists>s'. Tracer_copy_ctor s dst other = Inr s' \<and> single_owner s' \<and>
                 heap s' = heap s @ [Some v] \<and>
                 objs s' = (objs s)(dst \<mapsto> \<lparr>name = name u, resource = Some (length (heap s))\<rparr>) \<and>
                 deref (heap s') (Some (length (heap s))) = Inr v) \<and>
              (\<forall>this t. this \<noteq> other \<and> objs s this = Some t \<longrightarrow>
                 (\<exists>s'. Tracer_copy_assign s this other = Inr s' \<and> single_owner s' \<and>
                    heap s' = released (heap s) (resource t) @ [Some v] \<and>
                    objs s' = (objs s)(this \<mapsto>
                                \<lparr>name = name u, resource = Some (length (heap s))\<rparr>) \<and>
                    deref (heap s') (Some (length (heap s))) = Inr v))"
    using Some live ctor assign by blast
  with Some show ?thesis by simp
qed

text \<open>
  C1, witness: the only live object \<open>t1\<close> is copy-constructed in the state
  \<open>t1_constructed\<close> (exercise 1.1), and Bob is copy-assigned from Alice in the state
  \<open>alice_and_bob\<close>.
\<close>

theorem copy_defined_iff_source_owns_witness:
  "single_owner t1_constructed \<and>
   objs t1_constructed (Local 0) = Some \<lparr>name = ''t1'', resource = Some 0\<rparr> \<and>
   (\<exists>s'. Tracer_copy_ctor t1_constructed (Local 1) (Local 0) = Inr s' \<and>
      heap s' = [Some 42, Some 42] \<and>
      objs s' (Local 1) = Some \<lparr>name = ''t1'', resource = Some 1\<rparr> \<and>
      objs s' (Local 0) = Some \<lparr>name = ''t1'', resource = Some 0\<rparr>) \<and>
   single_owner alice_and_bob \<and>
   objs alice_and_bob (Local 0) = Some \<lparr>name = ''Alice'', resource = Some 0\<rparr> \<and>
   Local 1 \<noteq> Local 0 \<and>
   objs alice_and_bob (Local 1) = Some \<lparr>name = ''Bob'', resource = Some 1\<rparr> \<and>
   (\<exists>s'. Tracer_copy_assign alice_and_bob (Local 1) (Local 0) = Inr s' \<and>
      heap s' = [Some 42, None, Some 42] \<and>
      objs s' (Local 1) = Some \<lparr>name = ''Alice'', resource = Some 2\<rparr> \<and>
      objs s' (Local 0) = Some \<lparr>name = ''Alice'', resource = Some 0\<rparr>)"
proof -
  have h1: "objs t1_constructed (Local 0) = Some \<lparr>name = ''t1'', resource = Some 0\<rparr>"
    and p1: "heap t1_constructed = [Some 42]" and n1: "length (heap t1_constructed) = 1"
    by (simp_all add: t1_constructed_def)
  have h2: "objs alice_and_bob (Local 0) = Some \<lparr>name = ''Alice'', resource = Some 0\<rparr>"
    "objs alice_and_bob (Local 1) = Some \<lparr>name = ''Bob'', resource = Some 1\<rparr>"
    and p2: "heap alice_and_bob = [Some 42, Some 42]" and n2: "length (heap alice_and_bob) = 2"
    by (simp_all add: alice_and_bob_def)
  from copy_defined_iff_source_owns[OF single_owner_t1_constructed h1, of "Local 1"]
  obtain v s1 where c1: "heap t1_constructed ! 0 = Some v"
    "Tracer_copy_ctor t1_constructed (Local 1) (Local 0) = Inr s1"
    "heap s1 = heap t1_constructed @ [Some v]"
    "objs s1 = (objs t1_constructed)(Local 1 \<mapsto> \<lparr>name = ''t1'', resource = Some 1\<rparr>)"
    by (simp add: n1) blast
  from c1(1) have v: "v = 42" by (simp add: p1)
  have a: "\<exists>s'. Tracer_copy_ctor t1_constructed (Local 1) (Local 0) = Inr s' \<and>
      heap s' = [Some 42, Some 42] \<and>
      objs s' (Local 1) = Some \<lparr>name = ''t1'', resource = Some 1\<rparr> \<and>
      objs s' (Local 0) = Some \<lparr>name = ''t1'', resource = Some 0\<rparr>"
    using c1 v by (simp add: p1 h1)
  from copy_defined_iff_source_owns[OF single_owner_alice_and_bob h2(1), of "Local 2"]
  obtain w where c2: "heap alice_and_bob ! 0 = Some w"
    "\<forall>this t. this \<noteq> Local 0 \<and> objs alice_and_bob this = Some t \<longrightarrow>
       (\<exists>s'. Tracer_copy_assign alice_and_bob this (Local 0) = Inr s' \<and>
          single_owner s' \<and>
          heap s' = released (heap alice_and_bob) (resource t) @ [Some w] \<and>
          objs s' = (objs alice_and_bob)(this \<mapsto> \<lparr>name = ''Alice'', resource = Some 2\<rparr>) \<and>
          deref (heap s') (Some 2) = Inr w)"
    by (simp add: n2) blast
  from c2(1) have w: "w = 42" by (simp add: p2)
  have "Local 1 \<noteq> Local 0 \<and>
        objs alice_and_bob (Local 1) = Some \<lparr>name = ''Bob'', resource = Some 1\<rparr>"
    using h2(2) by simp
  from c2(2)[rule_format, OF this] obtain s2 where c3:
    "Tracer_copy_assign alice_and_bob (Local 1) (Local 0) = Inr s2"
    "heap s2 = released (heap alice_and_bob) (resource \<lparr>name = ''Bob'', resource = Some 1\<rparr>)
                 @ [Some w]"
    "objs s2 = (objs alice_and_bob)(Local 1 \<mapsto> \<lparr>name = ''Alice'', resource = Some 2\<rparr>)"
    by blast
  have b: "\<exists>s'. Tracer_copy_assign alice_and_bob (Local 1) (Local 0) = Inr s' \<and>
      heap s' = [Some 42, None, Some 42] \<and>
      objs s' (Local 1) = Some \<lparr>name = ''Alice'', resource = Some 2\<rparr> \<and>
      objs s' (Local 0) = Some \<lparr>name = ''Alice'', resource = Some 0\<rparr>"
    using c3 w by (simp add: released_def p2 h2)
  from a b show ?thesis
    using single_owner_t1_constructed single_owner_alice_and_bob h1 h2 by simp
qed

text \<open>
  C6.  Copy-constructing \<open>c\<close> from a different object \<open>a\<close> whose \<open>resource\<close> points to a
  live cell holding \<open>v\<close> gives \<open>c\<close> a cell that did not exist before, different from \<open>a\<close>'s,
  holding \<open>v\<close>; \<open>a\<close> is unchanged, and after any sequence of writes through \<open>c\<close>'s pointer
  \<open>a\<close>'s cell still holds \<open>v\<close>.
\<close>

theorem deep_copy_independent:
  assumes "objs s a = Some ta" "resource ta = Some ra" "ra < length (heap s)"
    "heap s ! ra = Some v" "c \<noteq> a"
  shows "\<exists>s' rc. Tracer_copy_ctor s c a = Inr s' \<and>
           objs s' c = Some \<lparr>name = name ta, resource = Some rc\<rparr> \<and>
           objs s' a = Some ta \<and>
           rc \<noteq> ra \<and> \<not> rc < length (heap s) \<and>
           deref (heap s') (Some rc) = Inr v \<and>
           deref (heap s') (Some ra) = Inr v \<and>
           (\<forall>ws. \<exists>h. assign_all (heap s') (Some rc) ws = Inr h \<and>
                      deref h (Some ra) = Inr v \<and>
                      deref h (Some rc) = Inr (last (v # ws)))"
proof -
  let ?rc = "length (heap s)"
  let ?h = "heap s @ [Some v]"
  let ?s' = "s\<lparr>heap := ?h,
               objs := (objs s)(c \<mapsto> \<lparr>name = name ta, resource = Some ?rc\<rparr>),
               out := out s @ ''  '' @ name ta @ '': COPY Constructor from '' @ name ta @ newline,
               history := history s @ [Began c]\<rparr>"
  from assms have run: "Tracer_copy_ctor s c a = Inr ?s'"
    by (simp add: Tracer_copy_ctor_def deref_def op_new_def)
  have cells: "?rc < length ?h" "?h ! ?rc = Some v" "ra < length ?h" "?h ! ra = Some v" "ra \<noteq> ?rc"
    using assms by (simp_all add: nth_append)
  have writes: "\<forall>ws. \<exists>h. assign_all ?h (Some ?rc) ws = Inr h \<and> deref h (Some ra) = Inr v \<and>
                      deref h (Some ?rc) = Inr (last (v # ws))"
    using assign_all_other_cell[OF cells] by blast
  have "objs ?s' c = Some \<lparr>name = name ta, resource = Some ?rc\<rparr>" by simp
  moreover have "objs ?s' a = Some ta" using assms by simp
  moreover have "?rc \<noteq> ra" "\<not> ?rc < length (heap s)" using assms by simp_all
  moreover have "deref (heap ?s') (Some ?rc) = Inr v" "deref (heap ?s') (Some ra) = Inr v"
    using cells by (simp_all add: deref_def)
  moreover have "\<forall>ws. \<exists>h. assign_all (heap ?s') (Some ?rc) ws = Inr h \<and>
                      deref h (Some ra) = Inr v \<and> deref h (Some ?rc) = Inr (last (v # ws))"
    using writes by simp
  ultimately show ?thesis using run by blast
qed

text \<open>
  C6, witness: \<open>t1\<close> is copied in the state \<open>t1_constructed\<close>, then 7 and 8 are written
  through the copy's pointer.
\<close>

theorem deep_copy_independent_witness:
  "objs t1_constructed (Local 0) = Some \<lparr>name = ''t1'', resource = Some 0\<rparr> \<and>
   0 < length (heap t1_constructed) \<and> heap t1_constructed ! 0 = Some 42 \<and> Local 1 \<noteq> Local 0 \<and>
   (\<exists>s' rc. Tracer_copy_ctor t1_constructed (Local 1) (Local 0) = Inr s' \<and>
      objs s' (Local 1) = Some \<lparr>name = ''t1'', resource = Some rc\<rparr> \<and>
      objs s' (Local 0) = Some \<lparr>name = ''t1'', resource = Some 0\<rparr> \<and>
      rc \<noteq> 0 \<and>
      deref (heap s') (Some rc) = Inr 42 \<and>
      (\<exists>h. assign_all (heap s') (Some rc) [7, 8] = Inr h \<and>
            deref h (Some 0) = Inr 42 \<and> deref h (Some rc) = Inr 8))"
proof -
  have h: "objs t1_constructed (Local 0) = Some \<lparr>name = ''t1'', resource = Some 0\<rparr>"
    "resource \<lparr>name = ''t1'', resource = Some 0\<rparr> = Some 0"
    "0 < length (heap t1_constructed)" "heap t1_constructed ! 0 = Some 42" "Local 1 \<noteq> Local 0"
    by (simp_all add: t1_constructed_def)
  from deep_copy_independent[OF h] obtain s' rc where
    r: "Tracer_copy_ctor t1_constructed (Local 1) (Local 0) = Inr s'"
      "objs s' (Local 1) = Some \<lparr>name = ''t1'', resource = Some rc\<rparr>"
      "objs s' (Local 0) = Some \<lparr>name = ''t1'', resource = Some 0\<rparr>"
      "rc \<noteq> 0" "deref (heap s') (Some rc) = Inr 42"
      "\<forall>ws. \<exists>h. assign_all (heap s') (Some rc) ws = Inr h \<and>
                      deref h (Some 0) = Inr 42 \<and> deref h (Some rc) = Inr (last (42 # ws))"
    by auto
  from r(6) obtain h' where "assign_all (heap s') (Some rc) [7, 8] = Inr h'"
    "deref h' (Some 0) = Inr 42" "deref h' (Some rc) = Inr (last (42 # [7, 8]))" by blast
  with r h show ?thesis by auto
qed

section \<open>Moving and ownership\<close>

text \<open>
  C2.  In a state that satisfies the ownership invariant, for every live \<open>Tracer\<close> \<open>src\<close>:
  after a move-construction from it into any other location, and after a move-assignment
  from it to any other live object, the source's \<open>resource\<close> is null, the destination holds
  the source's former pointer, every other object is as before, the invariant still holds,
  and destroying the moved-from source leaves the heap as it is; the destructor of \<open>src\<close>
  frees exactly the cell it owns (a live cell before, freed after, all other cells untouched)
  and nothing when it owns none; and no sequence of lifecycle operations ever frees a cell
  twice, touches a freed cell or leaves the invariant.
\<close>

theorem single_owner_after_move:
  assumes "single_owner s" "objs s src = Some u"
  shows "(dst \<noteq> src \<longrightarrow>
            (\<exists>s1. Tracer_move_ctor s dst src = Inr s1 \<and> single_owner s1 \<and> heap s1 = heap s \<and>
               (\<exists>u1. objs s1 src = Some u1 \<and> resource u1 = None) \<and>
               (\<exists>d. objs s1 dst = Some d \<and> resource d = resource u) \<and>
               (\<forall>l. l \<noteq> dst \<and> l \<noteq> src \<longrightarrow> objs s1 l = objs s l) \<and>
               (\<exists>s2. Tracer_dtor s1 src = Inr s2 \<and> heap s2 = heap s1))) \<and>
         (\<forall>this t. this \<noteq> src \<and> objs s this = Some t \<longrightarrow>
            (\<exists>s1. Tracer_move_assign s this src = Inr s1 \<and> single_owner s1 \<and>
               heap s1 = released (heap s) (resource t) \<and>
               (\<exists>u1. objs s1 src = Some u1 \<and> resource u1 = None) \<and>
               (\<exists>d. objs s1 this = Some d \<and> resource d = resource u) \<and>
               (\<forall>l. l \<noteq> this \<and> l \<noteq> src \<longrightarrow> objs s1 l = objs s l) \<and>
               (\<exists>s2. Tracer_dtor s1 src = Inr s2 \<and> heap s2 = heap s1))) \<and>
         (\<exists>s1. Tracer_dtor s src = Inr s1 \<and> single_owner s1 \<and>
            objs s1 = (objs s)(src := None) \<and>
            (case resource u of
               None \<Rightarrow> heap s1 = heap s
             | Some a \<Rightarrow> a < length (heap s) \<and> heap s ! a \<noteq> None \<and> heap s1 = (heap s)[a := None])) \<and>
         (\<forall>xs. run s xs \<noteq> Inl DoubleFree \<and> run s xs \<noteq> Inl UseAfterFree \<and>
               run s xs \<noteq> Inl InvalidPointer \<and> (\<forall>s'. run s xs = Inr s' \<longrightarrow> single_owner s'))"
proof (intro conjI impI allI)
  assume ne: "dst \<noteq> src"
  from move_ctor_ok[OF assms(1,2), of dst] obtain s1 where
    m: "Tracer_move_ctor s dst src = Inr s1" "single_owner s1" "heap s1 = heap s"
      "objs s1 = (objs s)(dst \<mapsto> \<lparr>name = name u, resource = resource u\<rparr>,
                          src \<mapsto> \<lparr>name = name u @ '' [moved]'', resource = None\<rparr>)"
    by blast
  have src1: "objs s1 src = Some \<lparr>name = name u @ '' [moved]'', resource = None\<rparr>"
    using m(4) by simp
  from dtor_ok[OF m(2) src1] obtain s2 where
    d: "Tracer_dtor s1 src = Inr s2" "heap s2 = released (heap s1) None" by auto
  have a: "\<exists>u1. objs s1 src = Some u1 \<and> resource u1 = None" using src1 by simp
  have b: "\<exists>d. objs s1 dst = Some d \<and> resource d = resource u" using m(4) ne by simp
  have c: "\<forall>l. l \<noteq> dst \<and> l \<noteq> src \<longrightarrow> objs s1 l = objs s l" using m(4) by simp
  have e: "\<exists>s2. Tracer_dtor s1 src = Inr s2 \<and> heap s2 = heap s1"
    using d by (simp add: released_def)
  show "\<exists>s1. Tracer_move_ctor s dst src = Inr s1 \<and> single_owner s1 \<and> heap s1 = heap s \<and>
               (\<exists>u1. objs s1 src = Some u1 \<and> resource u1 = None) \<and>
               (\<exists>d. objs s1 dst = Some d \<and> resource d = resource u) \<and>
               (\<forall>l. l \<noteq> dst \<and> l \<noteq> src \<longrightarrow> objs s1 l = objs s l) \<and>
               (\<exists>s2. Tracer_dtor s1 src = Inr s2 \<and> heap s2 = heap s1)"
    by (rule exI[of _ s1]) (intro conjI m(1,2,3) a b c e)
next
  fix this t
  assume h: "this \<noteq> src \<and> objs s this = Some t"
  then have ne: "this \<noteq> src" and live: "objs s this = Some t" by simp_all
  from move_assign_ok[OF assms(1) ne live assms(2)] obtain s1 where
    m: "Tracer_move_assign s this src = Inr s1" "single_owner s1"
      "heap s1 = released (heap s) (resource t)"
      "objs s1 = (objs s)(this \<mapsto> \<lparr>name = name u, resource = resource u\<rparr>,
                          src \<mapsto> \<lparr>name = name u @ name u @ '' [moved]'', resource = None\<rparr>)"
    by blast
  have src1: "objs s1 src = Some \<lparr>name = name u @ name u @ '' [moved]'', resource = None\<rparr>"
    using m(4) by simp
  from dtor_ok[OF m(2) src1] obtain s2 where
    d: "Tracer_dtor s1 src = Inr s2" "heap s2 = released (heap s1) None" by auto
  have a: "\<exists>u1. objs s1 src = Some u1 \<and> resource u1 = None" using src1 by simp
  have b: "\<exists>d. objs s1 this = Some d \<and> resource d = resource u" using m(4) ne by simp
  have c: "\<forall>l. l \<noteq> this \<and> l \<noteq> src \<longrightarrow> objs s1 l = objs s l" using m(4) by simp
  have e: "\<exists>s2. Tracer_dtor s1 src = Inr s2 \<and> heap s2 = heap s1"
    using d by (simp add: released_def)
  show "\<exists>s1. Tracer_move_assign s this src = Inr s1 \<and> single_owner s1 \<and>
               heap s1 = released (heap s) (resource t) \<and>
               (\<exists>u1. objs s1 src = Some u1 \<and> resource u1 = None) \<and>
               (\<exists>d. objs s1 this = Some d \<and> resource d = resource u) \<and>
               (\<forall>l. l \<noteq> this \<and> l \<noteq> src \<longrightarrow> objs s1 l = objs s l) \<and>
               (\<exists>s2. Tracer_dtor s1 src = Inr s2 \<and> heap s2 = heap s1)"
    by (rule exI[of _ s1]) (intro conjI m(1,2,3) a b c e)
next
  from assms have ow: "owned (heap s) (objs s)" by (simp add: single_owner_def)
  from dtor_ok[OF assms(1,2)] obtain s1 where
    d: "Tracer_dtor s src = Inr s1" "single_owner s1" "heap s1 = released (heap s) (resource u)"
      "objs s1 = (objs s)(src := None)"
    by blast
  have f: "case resource u of
               None \<Rightarrow> heap s1 = heap s
             | Some a \<Rightarrow> a < length (heap s) \<and> heap s ! a \<noteq> None \<and> heap s1 = (heap s)[a := None]"
    using d(3) owned_live[OF ow assms(2)] by (auto simp: released_def split: option.splits)
  show "\<exists>s1. Tracer_dtor s src = Inr s1 \<and> single_owner s1 \<and>
            objs s1 = (objs s)(src := None) \<and>
            (case resource u of
               None \<Rightarrow> heap s1 = heap s
             | Some a \<Rightarrow> a < length (heap s) \<and> heap s ! a \<noteq> None \<and> heap s1 = (heap s)[a := None])"
    by (rule exI[of _ s1]) (intro conjI d(1,2,4) f)
next
  fix xs
  from run_harmless[OF assms(1), of xs]
  show "run s xs \<noteq> Inl DoubleFree" "run s xs \<noteq> Inl UseAfterFree" "run s xs \<noteq> Inl InvalidPointer"
    by (auto simp: harmless_def)
next
  fix xs s'
  assume "run s xs = Inr s'"
  with run_harmless[OF assms(1), of xs] show "single_owner s'" by (simp add: harmless_def)
qed

text \<open>
  C2, witness: the only live object \<open>t1\<close> is the source of a move-construction in the state
  \<open>t1_constructed\<close> (exercise 2.3), where a second destruction of it is stopped and is not
  a double free; Bob is the source of a move-assignment into Alice in the state
  \<open>alice_and_bob\<close> (exercise 5.1).
\<close>

theorem single_owner_after_move_witness:
  "single_owner t1_constructed \<and>
   objs t1_constructed (Local 0) = Some \<lparr>name = ''t1'', resource = Some 0\<rparr> \<and>
   Local 1 \<noteq> Local 0 \<and>
   (\<exists>s1. Tracer_move_ctor t1_constructed (Local 1) (Local 0) = Inr s1 \<and>
      heap s1 = [Some 42] \<and>
      (\<exists>u1. objs s1 (Local 0) = Some u1 \<and> resource u1 = None) \<and>
      (\<exists>d. objs s1 (Local 1) = Some d \<and> resource d = Some 0) \<and>
      (\<exists>s2. Tracer_dtor s1 (Local 0) = Inr s2 \<and> heap s2 = [Some 42])) \<and>
   (\<exists>s1. Tracer_dtor t1_constructed (Local 0) = Inr s1 \<and> heap s1 = [None]) \<and>
   run t1_constructed [MoveConstruct (Local 1) (Local 0), Destruct (Local 0), Destruct (Local 1),
                       Destruct (Local 0)] \<noteq> Inl DoubleFree \<and>
   single_owner alice_and_bob \<and>
   objs alice_and_bob (Local 1) = Some \<lparr>name = ''Bob'', resource = Some 1\<rparr> \<and>
   Local 0 \<noteq> Local 1 \<and>
   objs alice_and_bob (Local 0) = Some \<lparr>name = ''Alice'', resource = Some 0\<rparr> \<and>
   (\<exists>s1. Tracer_move_assign alice_and_bob (Local 0) (Local 1) = Inr s1 \<and>
      heap s1 = [None, Some 42] \<and>
      (\<exists>u1. objs s1 (Local 1) = Some u1 \<and> resource u1 = None) \<and>
      (\<exists>d. objs s1 (Local 0) = Some d \<and> resource d = Some 1) \<and>
      (\<exists>s2. Tracer_dtor s1 (Local 1) = Inr s2 \<and> heap s2 = [None, Some 42]))"
proof -
  have h1: "objs t1_constructed (Local 0) = Some \<lparr>name = ''t1'', resource = Some 0\<rparr>"
    and p1: "heap t1_constructed = [Some 42]"
    by (simp_all add: t1_constructed_def)
  have h2: "objs alice_and_bob (Local 1) = Some \<lparr>name = ''Bob'', resource = Some 1\<rparr>"
    "objs alice_and_bob (Local 0) = Some \<lparr>name = ''Alice'', resource = Some 0\<rparr>"
    and p2: "heap alice_and_bob = [Some 42, Some 42]"
    by (simp_all add: alice_and_bob_def)
  have ne: "Local 1 \<noteq> Local 0" "Local 0 \<noteq> Local 1" by simp_all
  note th1 = single_owner_after_move[OF single_owner_t1_constructed h1, of "Local 1"]
  note th2 = single_owner_after_move[OF single_owner_alice_and_bob h2(1), of "Local 2"]
  from th1[THEN conjunct1, rule_format, OF ne(1)]
  have a: "\<exists>s1. Tracer_move_ctor t1_constructed (Local 1) (Local 0) = Inr s1 \<and>
      heap s1 = [Some 42] \<and>
      (\<exists>u1. objs s1 (Local 0) = Some u1 \<and> resource u1 = None) \<and>
      (\<exists>d. objs s1 (Local 1) = Some d \<and> resource d = Some 0) \<and>
      (\<exists>s2. Tracer_dtor s1 (Local 0) = Inr s2 \<and> heap s2 = [Some 42])"
    by (elim exE conjE) (simp add: p1)
  from th1[THEN conjunct2, THEN conjunct2, THEN conjunct1]
  have b: "\<exists>s1. Tracer_dtor t1_constructed (Local 0) = Inr s1 \<and> heap s1 = [None]"
    by (elim exE conjE) (simp add: p1)
  from th1[THEN conjunct2, THEN conjunct2, THEN conjunct2, rule_format,
      of "[MoveConstruct (Local 1) (Local 0), Destruct (Local 0), Destruct (Local 1),
           Destruct (Local 0)]"]
  have c: "run t1_constructed [MoveConstruct (Local 1) (Local 0), Destruct (Local 0),
      Destruct (Local 1), Destruct (Local 0)] \<noteq> Inl DoubleFree"
    by (rule conjunct1)
  have "Local 0 \<noteq> Local 1 \<and>
        objs alice_and_bob (Local 0) = Some \<lparr>name = ''Alice'', resource = Some 0\<rparr>"
    using h2(2) by simp
  from th2[THEN conjunct2, THEN conjunct1, rule_format, OF this]
  have d: "\<exists>s1. Tracer_move_assign alice_and_bob (Local 0) (Local 1) = Inr s1 \<and>
      heap s1 = [None, Some 42] \<and>
      (\<exists>u1. objs s1 (Local 1) = Some u1 \<and> resource u1 = None) \<and>
      (\<exists>d. objs s1 (Local 0) = Some d \<and> resource d = Some 1) \<and>
      (\<exists>s2. Tracer_dtor s1 (Local 1) = Inr s2 \<and> heap s2 = [None, Some 42])"
    by (elim exE conjE) (simp add: p2 released_def)
  from a b c d show ?thesis
    using single_owner_t1_constructed single_owner_alice_and_bob h1 h2 ne
    by (intro conjI)
qed

text \<open>
  C3.  The claim: after a move-construction or a move-assignment the source's name is its
  original name with the tag appended.  The move constructor does that (\<open>t1\<close> becomes
  \<open>t1 [moved]\<close>); the move assignment of exercise 5.1 leaves Bob with the name
  \<open>BobBob [moved]\<close>, the original name twice, because it copies the name instead of moving it
  and then appends the original name and the tag.
\<close>

theorem move_assign_source_name:
  "name_after (Tracer_move_assign alice_and_bob (Local 0) (Local 1)) (Local 1)
     = Inr ''BobBob [moved]'' \<and>
   name_after (Tracer_move_ctor t1_constructed (Local 1) (Local 0)) (Local 0)
     = Inr ''t1 [moved]''"
  by (simp add: tracer_defs alice_and_bob_def t1_constructed_def name_after_def and_then_def
      get_name_def)

text \<open>
  C5.  Assigning a \<open>Tracer\<close> to itself, by copy or by move, returns at the guard: the whole
  state is what it was, so the name and the resource of the object are unchanged, no cell is
  freed or allocated and nothing is printed.
\<close>

theorem self_assignment_is_identity:
  "Tracer_copy_assign s a a = Inr s \<and> Tracer_move_assign s a a = Inr s"
  by (simp add: Tracer_copy_assign_def Tracer_move_assign_def)

section \<open>Trace lines\<close>




section \<open>The exercises\<close>

text \<open>
  C7.  Exercise 6.1: after four \<^verbatim>\<open>emplace_back\<close> calls into the buffer reserved for four, the
  fifth prints the constructor line of \<open>v4\<close> and then, for each of the four elements in turn,
  one move-constructor line followed by the destructor line of the vacated element of the old
  buffer: four move constructions, four destructions, no copy.  The move constructor of
  \<open>Tracer\<close> is \<^verbatim>\<open>noexcept\<close>.
\<close>

theorem reallocation_relocates_by_move:
  "Tracer_nothrow_move_constructible \<and>
   output_of_vec (exercise_6_1_fill init) = Inr (unlines fill_lines) \<and>
   history_of_vec (exercise_6_1_fill init)
     = Inr [Began (Slot 1 0), Began (Slot 1 1), Began (Slot 1 2), Began (Slot 1 3)] \<and>
   output_of_vec (and_then (exercise_6_1_fill init) exercise_6_1_grow)
     = Inr (unlines fill_lines @ unlines [''Forcing reallocation...''] @ unlines reallocation_lines) \<and>
   history_of_vec (and_then (exercise_6_1_fill init) exercise_6_1_grow)
     = Inr ([Began (Slot 1 0), Began (Slot 1 1), Began (Slot 1 2), Began (Slot 1 3)]
            @ reallocation_history) \<and>
   count_lines_with ''MOVE Constructor from'' reallocation_lines = 4 \<and>
   count_lines_with ''COPY'' reallocation_lines = 0 \<and>
   count_lines_with ''[moved]: Destructor'' reallocation_lines = 4 \<and>
   output_of (exercise_6_1 init)
     = Inr (unlines fill_lines @ unlines [''Forcing reallocation...''] @ unlines reallocation_lines
            @ unlines [''Size of vector: 5, capacity of vector: 8'',
                       ''  v0: Destructor'', ''  v1: Destructor'', ''  v2: Destructor'',
                       ''  v3: Destructor'', ''  v4: Destructor''])"
  by code_simp

text \<open>
  C8.  In each exercise that declares two \<open>Tracer\<close> variables in its block (1.1, 1.2, 2.3 and
  5.1) the destructors run in the reverse order of the constructors: the object constructed
  second, at \<open>Local 1\<close>, is destroyed first.  The destructor lines are the last two lines of
  the output.
\<close>

theorem destructors_reverse_construction:
  "destroyed_in_reverse (exercise_1_1 init) \<and>
   destroyed_in_reverse (exercise_1_2 init) \<and>
   destroyed_in_reverse (exercise_2_3 init) \<and>
   destroyed_in_reverse (exercise_5_1 init) \<and>
   history_of (exercise_1_1 init)
     = Inr [Began (Local 0), Began (Local 1), Ended (Local 1), Ended (Local 0)] \<and>
   history_of (exercise_1_2 init)
     = Inr [Began (Local 0), Began (Local 1), Ended (Local 1), Ended (Local 0)] \<and>
   history_of (exercise_2_3 init)
     = Inr [Began (Local 0), Began (Local 1), Ended (Local 1), Ended (Local 0)] \<and>
   history_of (exercise_5_1 init)
     = Inr [Began (Local 0), Began (Local 1), Ended (Local 1), Ended (Local 0)] \<and>
   output_of (exercise_1_1 init)
     = Inr (unlines ['''', rocket @ '' Exercise 1.1'',
                     ''  t1: Constructor'', ''  t1: COPY Constructor from t1'',
                     ''...end of scope'',
                     ''  t1: Destructor'', ''  t1: Destructor'']) \<and>
   output_of (exercise_5_1 init)
     = Inr (unlines ['''', rocket @ '' Exercise 5.1'',
                     ''  Alice: Constructor'', ''  Bob: Constructor'',
                     ''Before move: a = Alice, b = Bob'',
                     ''  Alice: MOVE Assignment from Bob'',
                     ''After move:  a = Bob, b = BobBob [moved]'',
                     ''  BobBob [moved]: Destructor'', ''  Bob: Destructor''])"
  by code_simp

section \<open>The string programs and the program entry\<close>

text \<open>
  C10.  \<open>Program_01_Naive_String::Run\<close>: at the end of the block \<open>str1\<close> and \<open>str2\<close> are the
  same pointer to one array, which reads \<open>Jello\<close> after the write through \<open>str2\<close> (the
  output has \<open>str1: Jello\<close>).  The destructor of \<open>str2\<close> frees the array; the destructor of
  \<open>str1\<close> is then handed the freed array: its \<^verbatim>\<open>delete[]\<close> is a second free of the same cell,
  and the line it prints before already reads the freed array, which is where the run stops.
\<close>

theorem naive_string_double_free:
  "Program_01_Naive_String_Run_body sinit = Inr (hello, hello, naive_block_end) \<and>
   NaiveString_dtor naive_block_end hello = Inr naive_str2_destroyed \<and>
   op_delete (sheap naive_str2_destroyed) (m_data hello) = Inl DoubleFree \<and>
   NaiveString_dtor naive_str2_destroyed hello = Inl UseAfterFree \<and>
   Program_01_Naive_String_Run sinit = Inl UseAfterFree"
  by code_simp

text \<open>
  C9.  The selector is \<^verbatim>\<open>atoi(argv[1])\<close> when there is an argument and the default otherwise.
  For a selector that no \<^verbatim>\<open>case\<close> names, \<^verbatim>\<open>main\<close> prints the banner, runs no program,
  reports no error and returns 0; for a selector that a \<^verbatim>\<open>case\<close> names it runs that program
  after the banner, and no other.
\<close>

theorem selector_dispatch:
  "(programId_of 1 atoi argv \<notin> {1, 2} \<longrightarrow>
      main_shallow_vs_deep_copy atoi argv s = Inr (0, scout s (banner (programId_of 1 atoi argv)))) \<and>
   (programId_of 1 atoi argv = 1 \<longrightarrow>
      main_shallow_vs_deep_copy atoi argv s
        = and_then (Program_01_Naive_String_Run (scout s (banner 1))) (\<lambda>s'. Inr (0, s'))) \<and>
   (programId_of 1 atoi argv = 2 \<longrightarrow>
      main_shallow_vs_deep_copy atoi argv s
        = and_then (Program_02_Better_String_Run (scout s (banner 2))) (\<lambda>s'. Inr (0, s'))) \<and>
   (programId_of 4 atoi argv \<notin> {1, 2, 3, 4} \<longrightarrow>
      main_std_format run1 run2 run3 run4 atoi argv out0
        = Inr (0, out0 @ banner (programId_of 4 atoi argv))) \<and>
   (programId_of 4 atoi argv = 1 \<longrightarrow>
      main_std_format run1 run2 run3 run4 atoi argv out0
        = (case run1 (out0 @ banner 1) of Inl e \<Rightarrow> Inl e | Inr out2 \<Rightarrow> Inr (0, out2))) \<and>
   (programId_of 4 atoi argv = 2 \<longrightarrow>
      main_std_format run1 run2 run3 run4 atoi argv out0
        = (case run2 (out0 @ banner 2) of Inl e \<Rightarrow> Inl e | Inr out2 \<Rightarrow> Inr (0, out2))) \<and>
   (programId_of 4 atoi argv = 3 \<longrightarrow>
      main_std_format run1 run2 run3 run4 atoi argv out0
        = (case run3 (out0 @ banner 3) of Inl e \<Rightarrow> Inl e | Inr out2 \<Rightarrow> Inr (0, out2))) \<and>
   (programId_of 4 atoi argv = 4 \<longrightarrow>
      main_std_format run1 run2 run3 run4 atoi argv out0
        = (case run4 (out0 @ banner 4) of Inl e \<Rightarrow> Inl e | Inr out2 \<Rightarrow> Inr (0, out2)))"
  by (simp add: main_shallow_vs_deep_copy_def main_std_format_def Let_def)

text \<open>
  C9, witness: selector 7 and the default 1 for the \<^verbatim>\<open>main\<close> with two programs, selectors -3
  and 2 for the \<^verbatim>\<open>main\<close> with four.
\<close>

theorem selector_dispatch_witness:
  "programId_of 1 (\<lambda>_. 7) [''MyTarget'', ''7''] \<notin> {1, 2} \<and>
   main_shallow_vs_deep_copy (\<lambda>_. 7) [''MyTarget'', ''7''] sinit
     = Inr (0, \<lparr>sheap = [], sout = ''Running program 7...'' @ newline\<rparr>) \<and>
   programId_of 1 (\<lambda>_. 7) [''MyTarget''] = 1 \<and>
   main_shallow_vs_deep_copy (\<lambda>_. 7) [''MyTarget''] sinit = Inl UseAfterFree \<and>
   programId_of 4 (\<lambda>_. - 3) [''MyTarget'', ''-3''] \<notin> {1, 2, 3, 4} \<and>
   main_std_format (\<lambda>t. Inr (t @ ''one'')) (\<lambda>t. Inr (t @ ''two'')) (\<lambda>t. Inr (t @ ''three''))
       (\<lambda>t. Inl DeadObject) (\<lambda>_. - 3) [''MyTarget'', ''-3''] []
     = Inr (0, ''Running program -3...'' @ newline) \<and>
   programId_of 4 (\<lambda>_. 2) [''MyTarget'', ''2''] = 2 \<and>
   main_std_format (\<lambda>t. Inr (t @ ''one'')) (\<lambda>t. Inr (t @ ''two'')) (\<lambda>t. Inr (t @ ''three''))
       (\<lambda>t. Inl DeadObject) (\<lambda>_. 2) [''MyTarget'', ''2''] []
     = Inr (0, ''Running program 2...'' @ newline @ ''two'')"
proof -
  have p: "programId_of 1 (\<lambda>_. 7) [''MyTarget'', ''7''] = 7"
    "programId_of 1 (\<lambda>_. 7) [''MyTarget''] = 1"
    "programId_of 4 (\<lambda>_. - 3) [''MyTarget'', ''-3''] = - 3"
    "programId_of 4 (\<lambda>_. 2) [''MyTarget'', ''2''] = 2"
    by (simp_all add: programId_of_def)
  have b: "banner 7 = ''Running program 7...'' @ newline"
    "banner (- 3) = ''Running program -3...'' @ newline"
    "banner 2 = ''Running program 2...'' @ newline"
    by (simp_all add: banner_def string_of_int_def string_of_nat.simps digit_char_def)
  have r: "Program_01_Naive_String_Run (scout sinit (banner 1)) = Inl UseAfterFree"
    by code_simp
  note th1 = selector_dispatch[THEN conjunct1, of "\<lambda>_. 7" "[''MyTarget'', ''7'']" sinit]
  note th2 = selector_dispatch[THEN conjunct2, THEN conjunct1, of "\<lambda>_. 7" "[''MyTarget'']" sinit]
  note th3 = selector_dispatch[THEN conjunct2, THEN conjunct2, THEN conjunct2, THEN conjunct1,
      of "\<lambda>_. - 3" "[''MyTarget'', ''-3'']" "\<lambda>t. Inr (t @ ''one'')"
      "\<lambda>t. Inr (t @ ''two'')" "\<lambda>t. Inr (t @ ''three'')" "\<lambda>t. Inl DeadObject" "[]"]
  note th4 = selector_dispatch[THEN conjunct2, THEN conjunct2, THEN conjunct2, THEN conjunct2,
      THEN conjunct2, THEN conjunct1,
      of "\<lambda>_. 2" "[''MyTarget'', ''2'']" "\<lambda>t. Inr (t @ ''one'')"
      "\<lambda>t. Inr (t @ ''two'')" "\<lambda>t. Inr (t @ ''three'')" "\<lambda>t. Inl DeadObject" "[]"]
  from th1 have a1: "main_shallow_vs_deep_copy (\<lambda>_. 7) [''MyTarget'', ''7''] sinit
     = Inr (0, \<lparr>sheap = [], sout = ''Running program 7...'' @ newline\<rparr>)"
    by (simp add: p b scout_def sinit_def)
  from th2 have a2: "main_shallow_vs_deep_copy (\<lambda>_. 7) [''MyTarget''] sinit = Inl UseAfterFree"
    by (simp add: p r and_then_def)
  from th3 have a3: "main_std_format (\<lambda>t. Inr (t @ ''one'')) (\<lambda>t. Inr (t @ ''two''))
       (\<lambda>t. Inr (t @ ''three'')) (\<lambda>t. Inl DeadObject) (\<lambda>_. - 3) [''MyTarget'', ''-3''] []
     = Inr (0, ''Running program -3...'' @ newline)"
    by (simp add: p b)
  from th4 have a4: "main_std_format (\<lambda>t. Inr (t @ ''one'')) (\<lambda>t. Inr (t @ ''two''))
       (\<lambda>t. Inr (t @ ''three'')) (\<lambda>t. Inl DeadObject) (\<lambda>_. 2) [''MyTarget'', ''2''] []
     = Inr (0, ''Running program 2...'' @ newline @ ''two'')"
    by (simp add: p b)
  from a1 a2 a3 a4 show ?thesis by (simp add: p)
qed

end
